theory Spec2Isabelle
  imports Main
begin

section \<open>Strings\<close>

text \<open>
  A JavaScript string is modelled by the bytes of its UTF-8 encoding. Comparison, prefix
  and suffix tests and the search for an ASCII pattern agree with the UTF-16 original on
  well-formed strings. \<open>toLowerCase\<close> maps the ASCII capitals and leaves every other
  byte alone: no character outside \<open>A\<close> to \<open>Z\<close> lowercases to one of the letters
  that occur in the extensions tested by \<open>getFileExt\<close>.
\<close>

definition toLowerCaseChar :: "char \<Rightarrow> char" where
  "toLowerCaseChar c =
     (case map_of (zip ''ABCDEFGHIJKLMNOPQRSTUVWXYZ'' ''abcdefghijklmnopqrstuvwxyz'') c of
        Some d \<Rightarrow> d
      | None \<Rightarrow> c)"

definition toLowerCase :: "string \<Rightarrow> string" where
  "toLowerCase s = map toLowerCaseChar s"

definition endsWith :: "string \<Rightarrow> string \<Rightarrow> bool" where
  "endsWith s t = (length t \<le> length s \<and> drop (length s - length t) s = t)"

definition startsWith :: "string \<Rightarrow> string \<Rightarrow> bool" where
  "startsWith s t = (take (length t) s = t)"

text \<open>
  \<open>String.prototype.replace\<close> with a string pattern: the first occurrence of the
  pattern, searched from the left, is replaced. The replacement text is used as it is
  (the source only ever passes the empty string, which has no \<open>$\<close> patterns).
\<close>

fun replace :: "string \<Rightarrow> string \<Rightarrow> string \<Rightarrow> string" where
  "replace [] pat rep = (if pat = [] then rep else [])"
| "replace (c # cs) pat rep =
     (if startsWith (c # cs) pat then rep @ drop (length pat) (c # cs)
      else c # replace cs pat rep)"

section \<open>src/lib/utils.ts\<close>

definition getFileExt :: "string \<Rightarrow> string" where
  "getFileExt filename =
     (let lower = toLowerCase filename in
      if endsWith lower ''.jpg'' then ''.jpg''
      else if endsWith lower ''.jpeg'' then ''.jpeg''
      else if endsWith lower ''.webp'' then ''.webp''
      else if endsWith lower ''.png'' then ''.png''
      else if endsWith lower ''.svg'' then ''.svg''
      else if endsWith lower ''.mp3'' then ''.mp3''
      else if endsWith lower ''.m4a'' then ''.m4a''
      else if endsWith lower ''.wav'' then ''.wav''
      else if endsWith lower ''.ogg'' then ''.ogg''
      else if endsWith lower ''.flac'' then ''.flac''
      else if endsWith lower ''.aac'' then ''.aac''
      else ''.png'')"


section \<open>The data of the music publisher\<close>

record MusicItem =
  name :: string
  url :: string

text \<open>A browser \<open>File\<close>: its name and its bytes.\<close>

record File =
  file_name :: string
  file_bytes :: string

text \<open>
  \<open>MusicFileItem\<close>: the source tests \<open>musicFileItem.file\<close> before using it, so the
  field is optional here; \<open>hash\<close> is optional in the source.
\<close>

record MusicFileItem =
  file' :: "File option"
  hash :: "string option"

text \<open>
  \<open>PushMusicParams\<close>: the \<open>Map\<close> of pending uploads is the list of its entries in
  insertion order (a \<open>Map\<close> has each key once).
\<close>

record PushMusicParams =
  musicList :: "MusicItem list"
  musicFileItems :: "(string \<times> MusicFileItem) list option"

text \<open>\<open>TreeItem\<close> of the GitHub client: \<open>sha = None\<close> is the \<open>null\<close> that deletes the path.\<close>

record TreeItem =
  path :: string
  mode :: string
  type :: string
  sha :: "string option"

text \<open>A value produced by \<open>JSON.parse\<close>; a number keeps its literal text.\<close>

datatype json =
    JNull
  | JBool bool
  | JNum string
  | JStr string
  | JArr "json list"
  | JObj "(string \<times> json) list"

section \<open>The environment: remote calls and helpers\<close>

text \<open>A thrown JavaScript error, with its message.\<close>

datatype error = Error string

text \<open>
  The calls that \<open>pushMusic\<close> makes to the authentication module and to the GitHub
  client, with the arguments in the order of the source.
\<close>

datatype call =
    GetAuthToken
  | GetRef string string string string
  | CreateBlob string string string string string
  | ReadTextFileFromRepo string string string string string
  | CreateTree string string string "TreeItem list" string
  | CreateCommit string string string string string "string list"
  | UpdateRef string string string string string

text \<open>
  The modules \<open>@/lib/github-client\<close>, \<open>@/lib/auth\<close>, \<open>@/lib/file-utils\<close> and
  \<open>@/consts\<close> lie outside the files verified here, and \<open>JSON.parse\<close> and
  \<open>JSON.stringify\<close> are built in: they are parameters of the model. Each remote
  function sees the calls made so far and the call itself, and either throws (\<open>Inl\<close>)
  or returns (\<open>Inr\<close>); \<open>getRef\<close>, \<open>createBlob\<close>, \<open>createTree\<close> and
  \<open>createCommit\<close> return the \<open>sha\<close> field that the source reads from their result.
  \<open>JSON_parse\<close> returns \<open>None\<close> where \<open>JSON.parse\<close> throws a syntax error;
  \<open>JSON_stringify v indent\<close> stands for \<open>JSON.stringify(v, null, indent)\<close>.
  The digest and the two encoders work on data in memory and are taken to return.
\<close>

record env =
  OWNER :: string
  REPO :: string
  BRANCH :: string
  hashBytesSHA256 :: "string \<Rightarrow> string"
  fileToBase64NoPrefix :: "File \<Rightarrow> string"
  toBase64Utf8 :: "string \<Rightarrow> string"
  JSON_parse :: "string \<Rightarrow> json option"
  JSON_stringify :: "MusicItem list \<Rightarrow> string \<Rightarrow> string"
  getAuthToken :: "call list \<Rightarrow> call \<Rightarrow> error + string"
  getRef :: "call list \<Rightarrow> call \<Rightarrow> error + string"
  createBlob :: "call list \<Rightarrow> call \<Rightarrow> error + string"
  readTextFileFromRepo :: "call list \<Rightarrow> call \<Rightarrow> error + string option"
  createTree :: "call list \<Rightarrow> call \<Rightarrow> error + string"
  createCommit :: "call list \<Rightarrow> call \<Rightarrow> error + string"
  updateRef :: "call list \<Rightarrow> call \<Rightarrow> error + unit"

text \<open>
  Modelled from the spec: \<open>hashFileSHA256\<close> of \<open>@/lib/file-utils\<close>, which is not
  among the files at hand; the spec describes the content hash as a hex digest (SHA-256)
  over the file bytes, so the hash of a file is the digest \<open>hashBytesSHA256\<close> of its
  bytes, whatever its name.
\<close>

definition hashFileSHA256 :: "env \<Rightarrow> File \<Rightarrow> string" where
  "hashFileSHA256 E f = hashBytesSHA256 E (file_bytes f)"

text \<open>
  An asynchronous computation takes the log of the calls made so far and returns the
  extended log with the error thrown or the value returned. \<open>perform\<close> is one remote
  call, \<open>await\<close> sequences: an error ends the computation where it is thrown.
\<close>

type_synonym 'a io = "call list \<Rightarrow> call list \<times> (error + 'a)"

definition perform :: "(call list \<Rightarrow> call \<Rightarrow> error + 'a) \<Rightarrow> call \<Rightarrow> 'a io" where
  "perform f c log = (log @ [c], f log c)"

definition return_io :: "'a \<Rightarrow> 'a io" where
  "return_io x log = (log, Inr x)"

definition await :: "'a io \<Rightarrow> ('a \<Rightarrow> 'b io) \<Rightarrow> 'b io" where
  "await m k log =
     (case m log of
        (log', Inl e) \<Rightarrow> (log', Inl e)
      | (log', Inr x) \<Rightarrow> k x log')"

section \<open>pushMusic\<close>

text \<open>The commit message of the source, as UTF-8 bytes.\<close>

definition commitMessage :: string where
  "commitMessage =
     [CHR 0xE6, CHR 0x9B, CHR 0xB4, CHR 0xE6, CHR 0x96, CHR 0xB0, CHR 0xE9, CHR 0x9F, CHR 0xB3,
      CHR 0xE4, CHR 0xB9, CHR 0x90, CHR 0xE5, CHR 0x88, CHR 0x97, CHR 0xE8, CHR 0xA1, CHR 0xA8]"

text \<open>The variables that the upload loop mutates.\<close>

record locals =
  treeItems :: "TreeItem list"
  uploadedHashes :: "string set"
  updatedMusicList :: "MusicItem list"

text \<open>\<open>musicFileItem.hash || (await hashFileSHA256(musicFileItem.file))\<close>: the empty
  string is falsy, as \<open>undefined\<close> is.\<close>

definition hashOf :: "env \<Rightarrow> MusicFileItem \<Rightarrow> File \<Rightarrow> string" where
  "hashOf E musicFileItem f =
     (case hash musicFileItem of
        None \<Rightarrow> hashFileSHA256 E f
      | Some h \<Rightarrow> if h = [] then hashFileSHA256 E f else h)"

text \<open>\<open>updatedMusicList.map(m => (m.url === url ? { ...m, url: publicPath } : m))\<close>\<close>

definition remapUrl :: "string \<Rightarrow> string \<Rightarrow> MusicItem list \<Rightarrow> MusicItem list" where
  "remapUrl key publicPath ms = map (\<lambda>m. if url m = key then m\<lparr>url := publicPath\<rparr> else m) ms"

text \<open>One iteration of the loop over \<open>musicFileItems.entries()\<close>.\<close>

definition uploadFile :: "env \<Rightarrow> string \<Rightarrow> string \<times> MusicFileItem \<Rightarrow> locals \<Rightarrow> locals io" where
  "uploadFile E token entry st =
     (case file' (snd entry) of
        None \<Rightarrow> return_io st
      | Some f \<Rightarrow>
          (let hash = hashOf E (snd entry) f;
               ext = getFileExt (file_name f);
               filename = hash @ ext;
               publicPath = ''/music/'' @ filename
           in await
                (if hash \<notin> uploadedHashes st then
                   await
                     (perform (createBlob E)
                        (CreateBlob token (OWNER E) (REPO E) (fileToBase64NoPrefix E f) ''base64''))
                     (\<lambda>blobSha. return_io
                        (st\<lparr>treeItems := treeItems st @
                              [\<lparr>path = ''public/music/'' @ filename, mode = ''100644'',
                                type = ''blob'', sha = Some blobSha\<rparr>],
                            uploadedHashes := insert hash (uploadedHashes st)\<rparr>))
                 else return_io st)
                (\<lambda>st'. return_io
                   (st'\<lparr>updatedMusicList :=
                          remapUrl (fst entry) publicPath (updatedMusicList st')\<rparr>))))"

fun uploadFiles :: "env \<Rightarrow> string \<Rightarrow> (string \<times> MusicFileItem) list \<Rightarrow> locals \<Rightarrow> locals io" where
  "uploadFiles E token [] st = return_io st"
| "uploadFiles E token (entry # rest) st =
     await (uploadFile E token entry st) (uploadFiles E token rest)"

text \<open>
  The scan for stale files. \<open>music.url.startsWith\<close> throws a type error unless
  \<open>music\<close> is an object whose \<open>url\<close> is a string; \<open>for ... of\<close> throws unless the
  parsed value is an array or a string (whose elements are one-character strings).
  A parsed object has each key once.
\<close>

fun musicUrl :: "json \<Rightarrow> string option" where
  "musicUrl (JObj props) =
     (case map_of props ''url'' of
        Some (JStr u) \<Rightarrow> Some u
      | _ \<Rightarrow> None)"
| "musicUrl _ = None"

fun iterate :: "json \<Rightarrow> json list option" where
  "iterate (JArr xs) = Some xs"
| "iterate (JStr s) = Some (map (\<lambda>c. JStr [c]) s)"
| "iterate _ = None"

text \<open>\<open>Set.prototype.add\<close> on a set kept in insertion order.\<close>

definition Set_add :: "string list \<Rightarrow> string \<Rightarrow> string list" where
  "Set_add s x = (if x \<in> set s then s else s @ [x])"

fun collectPreviousUrls :: "json list \<Rightarrow> string list \<Rightarrow> string list option" where
  "collectPreviousUrls [] previousUrls = Some previousUrls"
| "collectPreviousUrls (music # rest) previousUrls =
     (case musicUrl music of
        None \<Rightarrow> None
      | Some u \<Rightarrow>
          collectPreviousUrls rest
            (if startsWith u ''/music/'' then Set_add previousUrls u else previousUrls))"

fun collectCurrentUrls :: "MusicItem list \<Rightarrow> string list \<Rightarrow> string list" where
  "collectCurrentUrls [] currentUrls = currentUrls"
| "collectCurrentUrls (music # rest) currentUrls =
     collectCurrentUrls rest
       (if startsWith (url music) ''/music/'' then Set_add currentUrls (url music)
        else currentUrls)"

definition deleteItem :: "string \<Rightarrow> TreeItem" where
  "deleteItem u =
     \<lparr>path = ''public/music/'' @ replace u ''/music/'' [], mode = ''100644'',
      type = ''blob'', sha = None\<rparr>"

text \<open>
  The tree items pushed by the \<open>if (previousListJson) { try ... catch ... }\<close> block:
  none when the text is \<open>null\<close> or empty, none when an error is caught (every push
  happens after the last statement that can throw).
\<close>

definition staleItems :: "env \<Rightarrow> string option \<Rightarrow> MusicItem list \<Rightarrow> TreeItem list" where
  "staleItems E previousListJson updated =
     (case previousListJson of
        None \<Rightarrow> []
      | Some text \<Rightarrow>
          if text = [] then []
          else
            (case JSON_parse E text of
               None \<Rightarrow> []
             | Some previousMusicList \<Rightarrow>
                 (case iterate previousMusicList of
                    None \<Rightarrow> []
                  | Some musics \<Rightarrow>
                      (case collectPreviousUrls musics [] of
                         None \<Rightarrow> []
                       | Some previousUrls \<Rightarrow>
                           (let currentUrls = collectCurrentUrls updated []
                            in map deleteItem
                                 (filter (\<lambda>u. u \<notin> set currentUrls) previousUrls))))))"

definition manifestItem :: "string \<Rightarrow> TreeItem" where
  "manifestItem musicBlobSha =
     \<lparr>path = ''src/app/music/list.json'', mode = ''100644'', type = ''blob'',
      sha = Some musicBlobSha\<rparr>"

text \<open>
  The upload of the pending files: the initialisation of the three variables and the
  guarded loop.
\<close>

definition uploadMusicFiles :: "env \<Rightarrow> string \<Rightarrow> PushMusicParams \<Rightarrow> locals io" where
  "uploadMusicFiles E token params =
     (let st = \<lparr>treeItems = [], uploadedHashes = {}, updatedMusicList = musicList params\<rparr>
      in case musicFileItems params of
           None \<Rightarrow> return_io st
         | Some items \<Rightarrow>
             if 0 < length items then uploadFiles E token items st else return_io st)"

text \<open>
  \<open>pushMusic\<close>, started on the empty log. The toasts and the console message are not
  modelled.
\<close>

definition pushMusic :: "env \<Rightarrow> PushMusicParams \<Rightarrow> call list \<times> (error + unit)" where
  "pushMusic E params =
     await (perform (getAuthToken E) GetAuthToken) (\<lambda>token.
     await (perform (getRef E) (GetRef token (OWNER E) (REPO E) (''heads/'' @ BRANCH E)))
       (\<lambda>latestCommitSha.
     await (uploadMusicFiles E token params)
       (\<lambda>st.
     await
       (perform (readTextFileFromRepo E)
          (ReadTextFileFromRepo token (OWNER E) (REPO E) ''src/app/music/list.json'' (BRANCH E)))
       (\<lambda>previousListJson.
     let items = treeItems st @ staleItems E previousListJson (updatedMusicList st);
         musicJson = JSON_stringify E (updatedMusicList st) [CHR 0x09]
     in
     await
       (perform (createBlob E)
          (CreateBlob token (OWNER E) (REPO E) (toBase64Utf8 E musicJson) ''base64''))
       (\<lambda>musicBlobSha.
     await
       (perform (createTree E)
          (CreateTree token (OWNER E) (REPO E) (items @ [manifestItem musicBlobSha])
             latestCommitSha))
       (\<lambda>treeSha.
     await
       (perform (createCommit E)
          (CreateCommit token (OWNER E) (REPO E) commitMessage treeSha [latestCommitSha]))
       (\<lambda>commitSha.
     await
       (perform (updateRef E)
          (UpdateRef token (OWNER E) (REPO E) (''heads/'' @ BRANCH E) commitSha))
       (\<lambda>_. return_io ())))))))) []"

section \<open>Observing a run\<close>

text \<open>
  \<open>failure E log c\<close> is the error that the environment throws when the call \<open>c\<close>
  is made after the calls \<open>log\<close>, if it throws.
\<close>

fun thrown :: "error + 'a \<Rightarrow> error option" where
  "thrown (Inl e) = Some e"
| "thrown (Inr x) = None"

fun failure :: "env \<Rightarrow> call list \<Rightarrow> call \<Rightarrow> error option" where
  "failure E log GetAuthToken = thrown (getAuthToken E log GetAuthToken)"
| "failure E log (GetRef t ow rp r) = thrown (getRef E log (GetRef t ow rp r))"
| "failure E log (CreateBlob t ow rp c enc) = thrown (createBlob E log (CreateBlob t ow rp c enc))"
| "failure E log (ReadTextFileFromRepo t ow rp p b) =
     thrown (readTextFileFromRepo E log (ReadTextFileFromRepo t ow rp p b))"
| "failure E log (CreateTree t ow rp items base) =
     thrown (createTree E log (CreateTree t ow rp items base))"
| "failure E log (CreateCommit t ow rp msg tree parents) =
     thrown (createCommit E log (CreateCommit t ow rp msg tree parents))"
| "failure E log (UpdateRef t ow rp r s) = thrown (updateRef E log (UpdateRef t ow rp r s))"

text \<open>
  \<open>aborting E log0 calls err\<close>: when \<open>calls\<close> are made in this order after
  \<open>log0\<close>, every call but the last returns and the last one throws \<open>err\<close>, or
  returns when \<open>err\<close> is \<open>None\<close>.
\<close>

fun aborting :: "env \<Rightarrow> call list \<Rightarrow> call list \<Rightarrow> error option \<Rightarrow> bool" where
  "aborting E log0 [] err = (err = None)"
| "aborting E log0 [c] err = (failure E log0 c = err)"
| "aborting E log0 (c # c' # cs) err =
     (failure E log0 c = None \<and> aborting E (log0 @ [c]) (c' # cs) err)"

definition orderly :: "env \<Rightarrow> 'a io \<Rightarrow> bool" where
  "orderly E m =
     (\<forall>log0 log res. m log0 = (log, res) \<longrightarrow>
        (\<exists>cs. log = log0 @ cs \<and> aborting E log0 cs (thrown res)))"

fun isCreateBlob :: "call \<Rightarrow> bool" where
  "isCreateBlob (CreateBlob t ow rp c enc) = True"
| "isCreateBlob _ = False"

fun isCreateTree :: "call \<Rightarrow> bool" where
  "isCreateTree (CreateTree t ow rp items base) = True"
| "isCreateTree _ = False"

text \<open>The calls of \<open>pushMusic\<close>, with the fixed arguments filled in.\<close>

abbreviation refCall :: "env \<Rightarrow> string \<Rightarrow> call" where
  "refCall E token \<equiv> GetRef token (OWNER E) (REPO E) (''heads/'' @ BRANCH E)"

abbreviation audioBlobCall :: "env \<Rightarrow> string \<Rightarrow> File \<Rightarrow> call" where
  "audioBlobCall E token f \<equiv>
     CreateBlob token (OWNER E) (REPO E) (fileToBase64NoPrefix E f) ''base64''"

abbreviation readManifestCall :: "env \<Rightarrow> string \<Rightarrow> call" where
  "readManifestCall E token \<equiv>
     ReadTextFileFromRepo token (OWNER E) (REPO E) ''src/app/music/list.json'' (BRANCH E)"

abbreviation manifestBlobCall :: "env \<Rightarrow> string \<Rightarrow> MusicItem list \<Rightarrow> call" where
  "manifestBlobCall E token updated \<equiv>
     CreateBlob token (OWNER E) (REPO E)
       (toBase64Utf8 E (JSON_stringify E updated [CHR 0x09])) ''base64''"

abbreviation treeCall :: "env \<Rightarrow> string \<Rightarrow> TreeItem list \<Rightarrow> string \<Rightarrow> call" where
  "treeCall E token items latestCommitSha \<equiv>
     CreateTree token (OWNER E) (REPO E) items latestCommitSha"

abbreviation commitCall :: "env \<Rightarrow> string \<Rightarrow> string \<Rightarrow> string \<Rightarrow> call" where
  "commitCall E token treeSha latestCommitSha \<equiv>
     CreateCommit token (OWNER E) (REPO E) commitMessage treeSha [latestCommitSha]"

abbreviation updateCall :: "env \<Rightarrow> string \<Rightarrow> string \<Rightarrow> call" where
  "updateCall E token commitSha \<equiv>
     UpdateRef token (OWNER E) (REPO E) (''heads/'' @ BRANCH E) commitSha"

text \<open>
  \<open>prepared E params token latestCommitSha log st\<close>: the token and the branch tip were
  obtained and the upload of the pending files returned, with the calls \<open>log\<close> made so
  far and the variables \<open>st\<close>; \<open>updatedMusicList st\<close> is the desired list after the
  remapping and \<open>treeItems st\<close> are the entries that add the uploaded blobs.
\<close>

definition prepared ::
  "env \<Rightarrow> PushMusicParams \<Rightarrow> string \<Rightarrow> string \<Rightarrow> call list \<Rightarrow> locals \<Rightarrow> bool" where
  "prepared E params token latestCommitSha log st =
     (getAuthToken E [] GetAuthToken = Inr token \<and>
      getRef E [GetAuthToken] (refCall E token) = Inr latestCommitSha \<and>
      uploadMusicFiles E token params [GetAuthToken, refCall E token] = (log, Inr st))"

text \<open>The entries of the map of pending uploads; none when the map is absent.\<close>

definition pending :: "PushMusicParams \<Rightarrow> (string \<times> MusicFileItem) list" where
  "pending params = (case musicFileItems params of None \<Rightarrow> [] | Some items \<Rightarrow> items)"

text \<open>
  The pending uploads that carry a file whose hash is not in \<open>seen\<close> and has not
  occurred earlier in the list, each with its hash and its file, in the order of the map.
\<close>

fun newUploads ::
  "env \<Rightarrow> string set \<Rightarrow> (string \<times> MusicFileItem) list \<Rightarrow> (string \<times> File) list" where
  "newUploads E seen [] = []"
| "newUploads E seen (entry # rest) =
     (case file' (snd entry) of
        None \<Rightarrow> newUploads E seen rest
      | Some f \<Rightarrow>
          if hashOf E (snd entry) f \<in> seen then newUploads E seen rest
          else (hashOf E (snd entry) f, f) # newUploads E (insert (hashOf E (snd entry) f) seen) rest)"

text \<open>The entry that adds the blob \<open>blobSha\<close> of a file with the given hash.\<close>

definition addItem :: "string \<Rightarrow> File \<Rightarrow> string \<Rightarrow> TreeItem" where
  "addItem h f blobSha =
     \<lparr>path = ''public/music/'' @ h @ getFileExt (file_name f), mode = ''100644'',
      type = ''blob'', sha = Some blobSha\<rparr>"

section \<open>An environment for running the model on examples\<close>

text \<open>
  The remote answers every call with a sha made of the number of calls so far, except
  the call number \<open>failAt\<close>, which throws; the branch holds the manifest text
  \<open>prev\<close>, which \<open>parse\<close> parses. The digest of this environment is the
  identity, the encodings are the identity, and the serializer writes one line for each
  track.
\<close>

definition demoSha :: "call list \<Rightarrow> call \<Rightarrow> string" where
  "demoSha log c = ''sha'' @ replicate (length log) (CHR ''+'')"

definition demoAnswer :: "nat option \<Rightarrow> 'a \<Rightarrow> call list \<Rightarrow> error + 'a" where
  "demoAnswer failAt x log = (if failAt = Some (length log) then Inl (Error ''rejected'') else Inr x)"

definition demoStringify :: "MusicItem list \<Rightarrow> string \<Rightarrow> string" where
  "demoStringify ms indent = concat (map (\<lambda>m. indent @ name m @ ''='' @ url m @ '';'') ms)"

definition demoEnv :: "nat option \<Rightarrow> string option \<Rightarrow> (string \<Rightarrow> json option) \<Rightarrow> env" where
  "demoEnv failAt prev parse =
     \<lparr>OWNER = ''owner'', REPO = ''repo'', BRANCH = ''main'',
      hashBytesSHA256 = (\<lambda>bytes. bytes),
      fileToBase64NoPrefix = file_bytes,
      toBase64Utf8 = (\<lambda>s. s),
      JSON_parse = parse,
      JSON_stringify = demoStringify,
      getAuthToken = (\<lambda>log c. demoAnswer failAt ''token'' log),
      getRef = (\<lambda>log c. demoAnswer failAt ''tip'' log),
      createBlob = (\<lambda>log c. demoAnswer failAt (demoSha log c) log),
      readTextFileFromRepo = (\<lambda>log c. demoAnswer failAt prev log),
      createTree = (\<lambda>log c. demoAnswer failAt (demoSha log c) log),
      createCommit = (\<lambda>log c. demoAnswer failAt (demoSha log c) log),
      updateRef = (\<lambda>log c. demoAnswer failAt () log)\<rparr>"

text \<open>
  The example of a publish: the branch holds a manifest with the track \<open>A\<close> at
  \<open>/music/old.mp3\<close> and the track \<open>X\<close> at an external URL, the desired list has
  the track \<open>B\<close> at a transient key, and the file pending at that key has the bytes
  \<open>deadbeef\<close>.
\<close>

definition exampleParse :: "string \<Rightarrow> json option" where
  "exampleParse text =
     (if text = ''[A,X]''
      then Some (JArr [JObj [(''name'', JStr ''A''), (''url'', JStr ''/music/old.mp3'')],
                       JObj [(''name'', JStr ''X''), (''url'', JStr ''https://x.org/music/x.mp3'')]])
      else None)"

definition exampleParams :: PushMusicParams where
  "exampleParams =
     \<lparr>musicList = [\<lparr>name = ''B'', url = ''temp-1''\<rparr>],
      musicFileItems =
        Some [(''temp-1'',
               \<lparr>file' = Some \<lparr>file_name = ''b.MP3'', file_bytes = ''deadbeef''\<rparr>,
                hash = None\<rparr>)]\<rparr>"

definition exampleLog :: "call list" where
  "exampleLog =
     [GetAuthToken,
      GetRef ''token'' ''owner'' ''repo'' ''heads/main'',
      CreateBlob ''token'' ''owner'' ''repo'' ''deadbeef'' ''base64'',
      ReadTextFileFromRepo ''token'' ''owner'' ''repo'' ''src/app/music/list.json'' ''main'',
      CreateBlob ''token'' ''owner'' ''repo'' (CHR 0x09 # ''B=/music/deadbeef.mp3;'') ''base64'',
      CreateTree ''token'' ''owner'' ''repo''
        [\<lparr>path = ''public/music/deadbeef.mp3'', mode = ''100644'', type = ''blob'',
          sha = Some ''sha++''\<rparr>,
         \<lparr>path = ''public/music/old.mp3'', mode = ''100644'', type = ''blob'', sha = None\<rparr>,
         \<lparr>path = ''src/app/music/list.json'', mode = ''100644'', type = ''blob'',
          sha = Some ''sha++++''\<rparr>]
        ''tip'',
      CreateCommit ''token'' ''owner'' ''repo'' commitMessage ''sha+++++'' [''tip''],
      UpdateRef ''token'' ''owner'' ''repo'' ''heads/main'' ''sha++++++'']"

definition exampleLocals :: locals where
  "exampleLocals =
     \<lparr>treeItems =
        [\<lparr>path = ''public/music/deadbeef.mp3'', mode = ''100644'', type = ''blob'',
          sha = Some ''sha++''\<rparr>],
      uploadedHashes = {''deadbeef''},
      updatedMusicList = [\<lparr>name = ''B'', url = ''/music/deadbeef.mp3''\<rparr>]\<rparr>"

definition exampleEntries :: "TreeItem list" where
  "exampleEntries =
     [\<lparr>path = ''public/music/deadbeef.mp3'', mode = ''100644'', type = ''blob'',
       sha = Some ''sha++''\<rparr>,
      \<lparr>path = ''public/music/old.mp3'', mode = ''100644'', type = ''blob'', sha = None\<rparr>,
      \<lparr>path = ''src/app/music/list.json'', mode = ''100644'', type = ''blob'',
       sha = Some ''sha++++''\<rparr>]"




text \<open>
  A publish with two pending files that have the same bytes and names with different
  extensions, each referred to by one track; what the upload returns, and the calls of
  the publish when the branch has no manifest.
\<close>

definition twinParams :: PushMusicParams where
  "twinParams =
     \<lparr>musicList = [\<lparr>name = ''one'', url = ''temp-1''\<rparr>, \<lparr>name = ''two'', url = ''temp-2''\<rparr>],
      musicFileItems =
        Some [(''temp-1'',
               \<lparr>file' = Some \<lparr>file_name = ''a.mp3'', file_bytes = ''abc''\<rparr>, hash = None\<rparr>),
              (''temp-2'',
               \<lparr>file' = Some \<lparr>file_name = ''a.wav'', file_bytes = ''abc''\<rparr>, hash = None\<rparr>)]\<rparr>"

definition twinLocals :: locals where
  "twinLocals =
     \<lparr>treeItems =
        [\<lparr>path = ''public/music/abc.mp3'', mode = ''100644'', type = ''blob'',
          sha = Some ''sha++''\<rparr>],
      uploadedHashes = {''abc''},
      updatedMusicList =
        [\<lparr>name = ''one'', url = ''/music/abc.mp3''\<rparr>,
         \<lparr>name = ''two'', url = ''/music/abc.wav''\<rparr>]\<rparr>"

definition twinLog :: "call list" where
  "twinLog =
     [GetAuthToken,
      GetRef ''token'' ''owner'' ''repo'' ''heads/main'',
      CreateBlob ''token'' ''owner'' ''repo'' ''abc'' ''base64'',
      ReadTextFileFromRepo ''token'' ''owner'' ''repo'' ''src/app/music/list.json'' ''main'',
      CreateBlob ''token'' ''owner'' ''repo''
        (CHR 0x09 # ''one=/music/abc.mp3;'' @ CHR 0x09 # ''two=/music/abc.wav;'') ''base64'',
      CreateTree ''token'' ''owner'' ''repo''
        [\<lparr>path = ''public/music/abc.mp3'', mode = ''100644'', type = ''blob'',
          sha = Some ''sha++''\<rparr>,
         \<lparr>path = ''src/app/music/list.json'', mode = ''100644'', type = ''blob'',
          sha = Some ''sha++++''\<rparr>]
        ''tip'',
      CreateCommit ''token'' ''owner'' ''repo'' commitMessage ''sha+++++'' [''tip''],
      UpdateRef ''token'' ''owner'' ''repo'' ''heads/main'' ''sha++++++'']"

text \<open>A publish without pending uploads, on a branch without a manifest, and its calls.\<close>

definition plainParams :: PushMusicParams where
  "plainParams =
     \<lparr>musicList =
        [\<lparr>name = ''A'', url = ''/music/a.mp3''\<rparr>, \<lparr>name = ''B'', url = ''https://b/b.mp3''\<rparr>],
      musicFileItems = None\<rparr>"

definition plainLog :: "call list" where
  "plainLog =
     [GetAuthToken,
      GetRef ''token'' ''owner'' ''repo'' ''heads/main'',
      ReadTextFileFromRepo ''token'' ''owner'' ''repo'' ''src/app/music/list.json'' ''main'',
      CreateBlob ''token'' ''owner'' ''repo''
        (CHR 0x09 # ''A=/music/a.mp3;'' @ CHR 0x09 # ''B=https://b/b.mp3;'') ''base64'',
      CreateTree ''token'' ''owner'' ''repo''
        [\<lparr>path = ''src/app/music/list.json'', mode = ''100644'', type = ''blob'',
          sha = Some ''sha+++''\<rparr>] ''tip'',
      CreateCommit ''token'' ''owner'' ''repo'' commitMessage ''sha++++'' [''tip''],
      UpdateRef ''token'' ''owner'' ''repo'' ''heads/main'' ''sha+++++'']"




text \<open>
  A previous manifest that is valid JSON and has, after the track \<open>A\<close> at
  \<open>/music/old.mp3\<close>, an element without a \<open>url\<close>.
\<close>

definition looseParse :: "string \<Rightarrow> json option" where
  "looseParse text =
     (if text = ''[A,N]''
      then Some (JArr [JObj [(''name'', JStr ''A''), (''url'', JStr ''/music/old.mp3'')],
                       JObj [(''name'', JStr ''no url'')]])
      else None)"

section \<open>Unfolding\<close>

lemmas demo_defs = demoEnv_def demoAnswer_def demoSha_def demoStringify_def
lemmas io_defs = await_def perform_def return_io_def
lemmas string_defs = toLowerCase_def toLowerCaseChar_def endsWith_def startsWith_def
lemmas example_defs = exampleParse_def exampleParams_def exampleLog_def
lemmas run_defs = pushMusic_def uploadMusicFiles_def uploadFiles.simps uploadFile_def
  hashOf_def hashFileSHA256_def getFileExt_def remapUrl_def
  staleItems_def Set_add_def deleteItem_def manifestItem_def
  string_defs demo_defs io_defs Let_def

text \<open>The example runs to the end: one blob added, one file deleted, the manifest replaced.\<close>

lemma example_run:
  "pushMusic (demoEnv None (Some ''[A,X]'') exampleParse) exampleParams = (exampleLog, Inr ())"
  by (simp add: run_defs example_defs)

section \<open>The fallback of getFileExt\<close>




section \<open>Errors abort the publish\<close>

lemma aborting_append:
  "aborting E log0 cs1 None \<Longrightarrow> aborting E (log0 @ cs1) cs2 err \<Longrightarrow> aborting E log0 (cs1 @ cs2) err"
proof (induction E log0 cs1 "None :: error option" rule: aborting.induct)
  case (1 E log0)
  then show ?case by simp
next
  case (2 E log0 c)
  then show ?case by (cases cs2) auto
next
  case (3 E log0 c c' cs)
  then show ?case by simp
qed

lemma aborting_nth:
  "aborting E log0 cs err \<Longrightarrow> i < length cs \<Longrightarrow>
   failure E (log0 @ take i cs) (cs ! i) = (if Suc i = length cs then err else None)"
proof (induction E log0 cs err arbitrary: i rule: aborting.induct)
  case (1 E log0 err)
  then show ?case by simp
next
  case (2 E log0 c err)
  then show ?case by simp
next
  case (3 E log0 c c' cs err)
  show ?case
  proof (cases i)
    case 0
    with 3 show ?thesis by simp
  next
    case (Suc j)
    with 3 have "j < length (c' # cs)" by simp
    with 3 have "failure E ((log0 @ [c]) @ take j (c' # cs)) ((c' # cs) ! j) =
      (if Suc j = length (c' # cs) then err else None)" by simp
    with Suc show ?thesis by simp
  qed
qed

lemma orderly_return: "orderly E (return_io x)"
  by (simp add: orderly_def return_io_def)

lemma orderly_await:
  assumes "orderly E m" and "\<And>x. orderly E (k x)"
  shows "orderly E (await m k)"
  unfolding orderly_def
proof (intro allI impI)
  fix log0 log res
  assume run: "await m k log0 = (log, res)"
  obtain log1 r1 where m: "m log0 = (log1, r1)" by (cases "m log0")
  from assms(1) m obtain cs1 where cs1: "log1 = log0 @ cs1" "aborting E log0 cs1 (thrown r1)"
    unfolding orderly_def by blast
  show "\<exists>cs. log = log0 @ cs \<and> aborting E log0 cs (thrown res)"
  proof (cases r1)
    case (Inl e)
    with run m have "log = log1" "res = Inl e" by (simp_all add: await_def)
    with cs1 Inl show ?thesis by auto
  next
    case (Inr x)
    with run m have "k x log1 = (log, res)" by (simp add: await_def)
    with assms(2) obtain cs2 where cs2: "log = log1 @ cs2" "aborting E log1 cs2 (thrown res)"
      unfolding orderly_def by blast
    from cs1 cs2 Inr have "aborting E log0 (cs1 @ cs2) (thrown res)"
      by (auto intro: aborting_append)
    with cs1 cs2 show ?thesis by auto
  qed
qed

lemma orderly_perform:
  "orderly E (perform (getAuthToken E) GetAuthToken)"
  "orderly E (perform (getRef E) (GetRef t ow rp r))"
  "orderly E (perform (createBlob E) (CreateBlob t ow rp c enc))"
  "orderly E (perform (readTextFileFromRepo E) (ReadTextFileFromRepo t ow rp p b))"
  "orderly E (perform (createTree E) (CreateTree t ow rp items base))"
  "orderly E (perform (createCommit E) (CreateCommit t ow rp msg tree parents))"
  "orderly E (perform (updateRef E) (UpdateRef t ow rp r s))"
  by (auto simp: orderly_def perform_def)

lemma orderly_uploadFile: "orderly E (uploadFile E token entry st)"
  by (auto simp: uploadFile_def Let_def intro!: orderly_await orderly_return orderly_perform split: option.splits)

lemma orderly_uploadFiles: "orderly E (uploadFiles E token items st)"
  by (induction items arbitrary: st) (auto intro!: orderly_await orderly_return orderly_uploadFile)

lemma orderly_uploadMusicFiles: "orderly E (uploadMusicFiles E token params)"
  by (auto simp: uploadMusicFiles_def Let_def intro!: orderly_return orderly_uploadFiles split: option.splits)

lemma pushMusic_aborting:
  assumes "pushMusic E p = (log, res)"
  shows "aborting E [] log (thrown res)"
proof -
  have "orderly E (await (perform (getAuthToken E) GetAuthToken) (\<lambda>token.
     await (perform (getRef E) (GetRef token (OWNER E) (REPO E) (''heads/'' @ BRANCH E)))
       (\<lambda>latestCommitSha.
     await (uploadMusicFiles E token p)
       (\<lambda>st.
     await
       (perform (readTextFileFromRepo E)
          (ReadTextFileFromRepo token (OWNER E) (REPO E) ''src/app/music/list.json'' (BRANCH E)))
       (\<lambda>previousListJson.
     let items = treeItems st @ staleItems E previousListJson (updatedMusicList st);
         musicJson = JSON_stringify E (updatedMusicList st) [CHR 0x09]
     in
     await
       (perform (createBlob E)
          (CreateBlob token (OWNER E) (REPO E) (toBase64Utf8 E musicJson) ''base64''))
       (\<lambda>musicBlobSha.
     await
       (perform (createTree E)
          (CreateTree token (OWNER E) (REPO E) (items @ [manifestItem musicBlobSha])
             latestCommitSha))
       (\<lambda>treeSha.
     await
       (perform (createCommit E)
          (CreateCommit token (OWNER E) (REPO E) commitMessage treeSha [latestCommitSha]))
       (\<lambda>commitSha.
     await
       (perform (updateRef E)
          (UpdateRef token (OWNER E) (REPO E) (''heads/'' @ BRANCH E) commitSha))
       (\<lambda>_. return_io ())))))))))"
    unfolding Let_def
    by (intro orderly_await orderly_return orderly_perform orderly_uploadMusicFiles)
  with assms show ?thesis
    unfolding orderly_def pushMusic_def by fastforce
qed

text \<open>
  C8. Whenever a call of a publish throws an error (the token retrieval, the ref lookup, a
  blob creation, the read of the manifest, the tree creation, the commit creation or the
  ref update), publish ends with that very error and the failing call is the last call
  that was made: nothing is invoked after it and nothing is tried again. Conversely a
  publish that ends with an error has made at least one call, and its last call threw
  that error. In particular a rejected ref update is the result of publish.
\<close>

theorem pushMusic_stops_at_first_error:
  assumes "pushMusic E params = (log, res)"
  shows "(\<forall>i e. i < length log \<and> failure E (take i log) (log ! i) = Some e \<longrightarrow>
            res = Inl e \<and> Suc i = length log) \<and>
         (\<forall>e. res = Inl e \<longrightarrow> log \<noteq> [] \<and> failure E (butlast log) (last log) = Some e)"
proof -
  have ab: "aborting E [] log (thrown res)"
    using assms by (rule pushMusic_aborting)
  have nth: "failure E (take i log) (log ! i) = (if Suc i = length log then thrown res else None)"
    if "i < length log" for i
    using aborting_nth [OF ab that] by simp
  have first: "res = Inl e \<and> Suc i = length log"
    if "i < length log" "failure E (take i log) (log ! i) = Some e" for i e
    using nth [OF that(1)] that(2) by (cases res) (auto split: if_splits)
  have second: "log \<noteq> [] \<and> failure E (butlast log) (last log) = Some e" if "res = Inl e" for e
  proof -
    from ab that have ne: "log \<noteq> []" by auto
    then have "length log - 1 < length log" by simp
    from nth [OF this] ne that show ?thesis
      by (simp add: butlast_conv_take last_conv_nth)
  qed
  from first second show ?thesis by blast
qed

theorem pushMusic_stops_at_first_error_witness:
  "pushMusic (demoEnv (Some 6) None (\<lambda>s. None)) \<lparr>musicList = [], musicFileItems = None\<rparr> =
     ([GetAuthToken,
       GetRef ''token'' ''owner'' ''repo'' ''heads/main'',
       ReadTextFileFromRepo ''token'' ''owner'' ''repo'' ''src/app/music/list.json'' ''main'',
       CreateBlob ''token'' ''owner'' ''repo'' [] ''base64'',
       CreateTree ''token'' ''owner'' ''repo''
         [\<lparr>path = ''src/app/music/list.json'', mode = ''100644'', type = ''blob'',
           sha = Some ''sha+++''\<rparr>] ''tip'',
       CreateCommit ''token'' ''owner'' ''repo'' commitMessage ''sha++++'' [''tip''],
       UpdateRef ''token'' ''owner'' ''repo'' ''heads/main'' ''sha+++++''],
      Inl (Error ''rejected'')) \<and>
   failure (demoEnv (Some 6) None (\<lambda>s. None))
     [GetAuthToken,
       GetRef ''token'' ''owner'' ''repo'' ''heads/main'',
       ReadTextFileFromRepo ''token'' ''owner'' ''repo'' ''src/app/music/list.json'' ''main'',
       CreateBlob ''token'' ''owner'' ''repo'' [] ''base64'',
       CreateTree ''token'' ''owner'' ''repo''
         [\<lparr>path = ''src/app/music/list.json'', mode = ''100644'', type = ''blob'',
           sha = Some ''sha+++''\<rparr>] ''tip'',
       CreateCommit ''token'' ''owner'' ''repo'' commitMessage ''sha++++'' [''tip'']]
     (UpdateRef ''token'' ''owner'' ''repo'' ''heads/main'' ''sha+++++'') = Some (Error ''rejected'')"
proof -
  have run: "pushMusic (demoEnv (Some 6) None (\<lambda>s. None)) \<lparr>musicList = [], musicFileItems = None\<rparr> =
     ([GetAuthToken,
       GetRef ''token'' ''owner'' ''repo'' ''heads/main'',
       ReadTextFileFromRepo ''token'' ''owner'' ''repo'' ''src/app/music/list.json'' ''main'',
       CreateBlob ''token'' ''owner'' ''repo'' [] ''base64'',
       CreateTree ''token'' ''owner'' ''repo''
         [\<lparr>path = ''src/app/music/list.json'', mode = ''100644'', type = ''blob'',
           sha = Some ''sha+++''\<rparr>] ''tip'',
       CreateCommit ''token'' ''owner'' ''repo'' commitMessage ''sha++++'' [''tip''],
       UpdateRef ''token'' ''owner'' ''repo'' ''heads/main'' ''sha+++++''],
      Inl (Error ''rejected''))"
    by (simp add: pushMusic_def uploadMusicFiles_def staleItems_def manifestItem_def
        demo_defs io_defs)
  from pushMusic_stops_at_first_error [OF run] run show ?thesis
    by simp
qed


section \<open>The upload loop\<close>

declare uploadFiles.simps [simp del]

lemma uploadFile_nofile:
  "file' item = None \<Longrightarrow> uploadFile E token (key, item) st log = (log, Inr st)"
  by (simp add: uploadFile_def return_io_def)

lemma uploadFile_seen:
  "file' item = Some f \<Longrightarrow> hashOf E item f \<in> uploadedHashes st \<Longrightarrow>
   uploadFile E token (key, item) st log =
     (log, Inr (st\<lparr>updatedMusicList :=
        remapUrl key (''/music/'' @ hashOf E item f @ getFileExt (file_name f))
          (updatedMusicList st)\<rparr>))"
  by (simp add: uploadFile_def Let_def io_defs)

lemma uploadFile_new:
  "file' item = Some f \<Longrightarrow> hashOf E item f \<notin> uploadedHashes st \<Longrightarrow>
   uploadFile E token (key, item) st log =
     (log @ [audioBlobCall E token f],
      case createBlob E log (audioBlobCall E token f) of
        Inl e \<Rightarrow> Inl e
      | Inr blobSha \<Rightarrow>
          Inr \<lparr>treeItems = treeItems st @ [addItem (hashOf E item f) f blobSha],
               uploadedHashes = insert (hashOf E item f) (uploadedHashes st),
               updatedMusicList =
                 remapUrl key (''/music/'' @ hashOf E item f @ getFileExt (file_name f))
                   (updatedMusicList st)\<rparr>)"
  by (simp add: uploadFile_def Let_def io_defs addItem_def split: sum.splits)

lemma uploadFiles_Cons:
  "uploadFiles E token (entry # rest) st log =
     (case uploadFile E token entry st log of
        (log', Inl e) \<Rightarrow> (log', Inl e)
      | (log', Inr st') \<Rightarrow> uploadFiles E token rest st' log')"
  by (simp add: uploadFiles.simps await_def)

lemma uploadFiles_Nil: "uploadFiles E token [] st log = (log, Inr st)"
  by (simp add: uploadFiles.simps return_io_def)


text \<open>The loop as a whole, when it returns.\<close>

lemma uploadFiles_returns:
  assumes "uploadFiles E token items st log0 = (log, Inr st')"
  shows "\<exists>shas. 
           log = log0 @ map (\<lambda>x. audioBlobCall E token (snd x)) (newUploads E (uploadedHashes st) items) \<and>
           length shas = length (newUploads E (uploadedHashes st) items) \<and>
           treeItems st' = treeItems st @
              map2 (\<lambda>x s. addItem (fst x) (snd x) s) (newUploads E (uploadedHashes st) items) shas \<and>
           (\<forall>i < length shas.
              createBlob E
                (log0 @ take i (map (\<lambda>x. audioBlobCall E token (snd x))
                   (newUploads E (uploadedHashes st) items)))
                (audioBlobCall E token (snd (newUploads E (uploadedHashes st) items ! i))) =
              Inr (shas ! i)) \<and>
           uploadedHashes st' = uploadedHashes st \<union> fst ` set (newUploads E (uploadedHashes st) items)"
  using assms
proof (induction items arbitrary: st log0)
  case Nil
  then show ?case by (simp add: uploadFiles_Nil)
next
  case (Cons entry rest)
  obtain key item where entry: "entry = (key, item)" by (cases entry)
  show ?case
  proof (cases "file' item")
    case None
    with Cons.prems entry have run: "uploadFiles E token rest st log0 = (log, Inr st')"
      by (simp add: uploadFiles_Cons uploadFile_nofile)
    have same: "newUploads E (uploadedHashes st) (entry # rest) = newUploads E (uploadedHashes st) rest"
      using None entry by simp
    show ?thesis unfolding same by (rule Cons.IH [OF run])
  next
    case (Some f)
    show ?thesis
    proof (cases "hashOf E item f \<in> uploadedHashes st")
      case True
      with Cons.prems entry Some
      have run: "uploadFiles E token rest
              (st\<lparr>updatedMusicList :=
                 remapUrl key (''/music/'' @ hashOf E item f @ getFileExt (file_name f))
                   (updatedMusicList st)\<rparr>) log0 = (log, Inr st')"
        by (simp add: uploadFiles_Cons uploadFile_seen)
      have same: "newUploads E (uploadedHashes st) (entry # rest) = newUploads E (uploadedHashes st) rest"
        using True Some entry by simp
      have sel: "uploadedHashes (st\<lparr>updatedMusicList :=
                 remapUrl key (''/music/'' @ hashOf E item f @ getFileExt (file_name f))
                   (updatedMusicList st)\<rparr>) = uploadedHashes st"
        "treeItems (st\<lparr>updatedMusicList :=
                 remapUrl key (''/music/'' @ hashOf E item f @ getFileExt (file_name f))
                   (updatedMusicList st)\<rparr>) = treeItems st"
        by simp_all
      show ?thesis unfolding same using Cons.IH [OF run] by (simp only: sel)
    next
      case False
      let ?c = "audioBlobCall E token f"
      let ?h = "hashOf E item f"
      let ?new = "newUploads E (insert ?h (uploadedHashes st)) rest"
      from Cons.prems entry Some False obtain blobSha where
        ans: "createBlob E log0 ?c = Inr blobSha" and
        rest: "uploadFiles E token rest
           \<lparr>treeItems = treeItems st @ [addItem ?h f blobSha],
            uploadedHashes = insert ?h (uploadedHashes st),
            updatedMusicList =
              remapUrl key (''/music/'' @ ?h @ getFileExt (file_name f))
                (updatedMusicList st)\<rparr> (log0 @ [?c]) = (log, Inr st')"
        by (auto simp: uploadFiles_Cons uploadFile_new split: sum.splits)
      from Cons.IH [OF rest] obtain shas where
        l: "log = (log0 @ [?c]) @ map (\<lambda>x. audioBlobCall E token (snd x)) ?new" and
        n: "length shas = length ?new" and
        t: "treeItems st' = (treeItems st @ [addItem ?h f blobSha]) @
              map2 (\<lambda>x s. addItem (fst x) (snd x) s) ?new shas" and
        a: "\<forall>i < length shas. createBlob E
              ((log0 @ [?c]) @ take i (map (\<lambda>x. audioBlobCall E token (snd x)) ?new))
              (audioBlobCall E token (snd (?new ! i))) = Inr (shas ! i)" and
        u: "uploadedHashes st' = insert ?h (uploadedHashes st) \<union> fst ` set ?new"
        by auto
      have new: "newUploads E (uploadedHashes st) (entry # rest) = (?h, f) # ?new"
        using False Some entry by simp
      have 1: "log = log0 @ map (\<lambda>x. audioBlobCall E token (snd x))
                 (newUploads E (uploadedHashes st) (entry # rest))"
        using l new by simp
      have 2: "length (blobSha # shas) = length (newUploads E (uploadedHashes st) (entry # rest))"
        using n new by simp
      have 3: "treeItems st' = treeItems st @
              map2 (\<lambda>x s. addItem (fst x) (snd x) s) (newUploads E (uploadedHashes st) (entry # rest))
                (blobSha # shas)"
        using t new by simp
      have 4: "createBlob E
                 (log0 @ take i (map (\<lambda>x. audioBlobCall E token (snd x))
                    (newUploads E (uploadedHashes st) (entry # rest))))
                 (audioBlobCall E token (snd (newUploads E (uploadedHashes st) (entry # rest) ! i))) =
                 Inr ((blobSha # shas) ! i)" if "i < length (blobSha # shas)" for i
      proof (cases i)
        case 0
        with ans new show ?thesis by simp
      next
        case (Suc j)
        with that have "j < length shas" by simp
        with a have "createBlob E
              ((log0 @ [?c]) @ take j (map (\<lambda>x. audioBlobCall E token (snd x)) ?new))
              (audioBlobCall E token (snd (?new ! j))) = Inr (shas ! j)" by blast
        with Suc new show ?thesis by simp
      qed
      have 5: "uploadedHashes st' = uploadedHashes st \<union>
                 fst ` set (newUploads E (uploadedHashes st) (entry # rest))"
        using u new by simp
      from 1 2 3 4 5 show ?thesis by blast
    qed
  qed
qed




text \<open>The calls of the loop when it throws or returns: blob creations only.\<close>

lemma uploadFile_log:
  assumes "uploadFile E token entry st log0 = (log, r)"
  shows "\<exists>cs. log = log0 @ cs \<and> list_all isCreateBlob cs"
proof -
  obtain key item where entry: "entry = (key, item)" by (cases entry)
  show ?thesis
  proof (cases "file' item")
    case None
    with assms entry show ?thesis by (simp add: uploadFile_nofile)
  next
    case (Some f)
    with assms entry show ?thesis
      by (cases "hashOf E item f \<in> uploadedHashes st")
         (auto simp: uploadFile_seen uploadFile_new)
  qed
qed

lemma uploadFiles_log:
  assumes "uploadFiles E token items st log0 = (log, r)"
  shows "\<exists>cs. log = log0 @ cs \<and> list_all isCreateBlob cs"
  using assms
proof (induction items arbitrary: st log0)
  case Nil
  then show ?case by (simp add: uploadFiles_Nil)
next
  case (Cons entry rest)
  obtain log1 r1 where step: "uploadFile E token entry st log0 = (log1, r1)"
    by (cases "uploadFile E token entry st log0")
  from uploadFile_log [OF step] obtain cs1 where cs1: "log1 = log0 @ cs1" "list_all isCreateBlob cs1"
    by blast
  show ?case
  proof (cases r1)
    case (Inl e)
    with Cons.prems step cs1 show ?thesis by (auto simp: uploadFiles_Cons)
  next
    case (Inr st1)
    with Cons.prems step have "uploadFiles E token rest st1 log1 = (log, r)"
      by (simp add: uploadFiles_Cons)
    from Cons.IH [OF this] obtain cs2 where "log = log1 @ cs2" "list_all isCreateBlob cs2"
      by blast
    with cs1 show ?thesis by auto
  qed
qed




section \<open>The shape of a publish\<close>

lemma uploadMusicFiles_loop:
  "uploadMusicFiles E token params log0 =
     uploadFiles E token (pending params)
       \<lparr>treeItems = [], uploadedHashes = {}, updatedMusicList = musicList params\<rparr> log0"
  by (cases "musicFileItems params")
     (auto simp: uploadMusicFiles_def pending_def Let_def uploadFiles_Nil return_io_def)

lemma uploadMusicFiles_log:
  assumes "uploadMusicFiles E token params log0 = (log, r)"
  shows "\<exists>cs. log = log0 @ cs \<and> list_all isCreateBlob cs"
  using assms unfolding uploadMusicFiles_loop by (rule uploadFiles_log)

lemma isCreateBlob_not_tree: "list_all isCreateBlob cs \<Longrightarrow> filter isCreateTree cs = []"
proof (induction cs)
  case Nil
  then show ?case by simp
next
  case (Cons c cs)
  then show ?case by (cases c) auto
qed

lemma prepared_log:
  assumes "prepared E params token latestCommitSha log st"
  shows "\<exists>cs. log = [GetAuthToken, refCall E token] @ cs \<and> list_all isCreateBlob cs"
  using assms uploadMusicFiles_log unfolding prepared_def by blast

lemma prepared_unique:
  assumes "prepared E params token latestCommitSha log st"
    and "prepared E params token' latestCommitSha' log' st'"
  shows "token' = token \<and> latestCommitSha' = latestCommitSha \<and> log' = log \<and> st' = st"
  using assms unfolding prepared_def by auto

text \<open>The rest of a publish after the upload, call by call.\<close>

lemma pushMusic_prepared:
  assumes "prepared E params token latestCommitSha log3 st"
  shows "pushMusic E params =
    (case readTextFileFromRepo E log3 (readManifestCall E token) of
       Inl e \<Rightarrow> (log3 @ [readManifestCall E token], Inl e)
     | Inr prev \<Rightarrow>
        (case createBlob E (log3 @ [readManifestCall E token])
                (manifestBlobCall E token (updatedMusicList st)) of
           Inl e \<Rightarrow>
             (log3 @ [readManifestCall E token, manifestBlobCall E token (updatedMusicList st)],
              Inl e)
         | Inr blobSha \<Rightarrow>
            (case createTree E
                    (log3 @ [readManifestCall E token,
                       manifestBlobCall E token (updatedMusicList st)])
                    (treeCall E token
                       (treeItems st @ staleItems E prev (updatedMusicList st) @
                          [manifestItem blobSha]) latestCommitSha) of
               Inl e \<Rightarrow>
                 (log3 @ [readManifestCall E token,
                    manifestBlobCall E token (updatedMusicList st),
                    treeCall E token
                      (treeItems st @ staleItems E prev (updatedMusicList st) @
                         [manifestItem blobSha]) latestCommitSha],
                  Inl e)
             | Inr treeSha \<Rightarrow>
                (case createCommit E
                        (log3 @ [readManifestCall E token,
                           manifestBlobCall E token (updatedMusicList st),
                           treeCall E token
                             (treeItems st @ staleItems E prev (updatedMusicList st) @
                                [manifestItem blobSha]) latestCommitSha])
                        (commitCall E token treeSha latestCommitSha) of
                   Inl e \<Rightarrow>
                     (log3 @ [readManifestCall E token,
                        manifestBlobCall E token (updatedMusicList st),
                        treeCall E token
                          (treeItems st @ staleItems E prev (updatedMusicList st) @
                             [manifestItem blobSha]) latestCommitSha,
                        commitCall E token treeSha latestCommitSha],
                      Inl e)
                 | Inr commitSha \<Rightarrow>
                     (log3 @ [readManifestCall E token,
                        manifestBlobCall E token (updatedMusicList st),
                        treeCall E token
                          (treeItems st @ staleItems E prev (updatedMusicList st) @
                             [manifestItem blobSha]) latestCommitSha,
                        commitCall E token treeSha latestCommitSha,
                        updateCall E token commitSha],
                      case updateRef E
                             (log3 @ [readManifestCall E token,
                                manifestBlobCall E token (updatedMusicList st),
                                treeCall E token
                                  (treeItems st @ staleItems E prev (updatedMusicList st) @
                                     [manifestItem blobSha]) latestCommitSha,
                                commitCall E token treeSha latestCommitSha])
                             (updateCall E token commitSha) of
                        Inl e \<Rightarrow> Inl e
                      | Inr u \<Rightarrow> Inr ())))))"
  using assms
  by (simp add: prepared_def pushMusic_def io_defs Let_def split: sum.splits)

text \<open>A publish that does not get through the upload ends with an error and has called
  for the token, the ref and blobs only.\<close>

lemma pushMusic_unprepared:
  assumes "pushMusic E params = (log, res)"
    and "\<forall>token latestCommitSha log3 st. \<not> prepared E params token latestCommitSha log3 st"
  shows "(\<exists>e. res = Inl e) \<and> filter isCreateTree log = []"
proof (cases "getAuthToken E [] GetAuthToken")
  case (Inl e)
  with assms(1) show ?thesis by (auto simp: pushMusic_def io_defs)
next
  case token: (Inr token)
  show ?thesis
  proof (cases "getRef E [GetAuthToken] (refCall E token)")
    case (Inl e)
    with assms(1) token show ?thesis by (auto simp: pushMusic_def io_defs)
  next
    case tip: (Inr latestCommitSha)
    obtain log3 r3 where up: "uploadMusicFiles E token params [GetAuthToken, refCall E token] = (log3, r3)"
      by (cases "uploadMusicFiles E token params [GetAuthToken, refCall E token]")
    from uploadMusicFiles_log [OF up] obtain cs where
      cs: "log3 = [GetAuthToken, refCall E token] @ cs" "list_all isCreateBlob cs" by blast
    show ?thesis
    proof (cases r3)
      case (Inl e)
      with assms(1) token tip up have "log = log3" "res = Inl e"
        by (auto simp: pushMusic_def io_defs)
      with cs isCreateBlob_not_tree [OF cs(2)] show ?thesis by simp
    next
      case (Inr st)
      with token tip up have "prepared E params token latestCommitSha log3 st"
        by (simp add: prepared_def)
      with assms(2) show ?thesis by blast
    qed
  qed
qed

text \<open>Every tree creation of a publish, with what precedes it.\<close>

lemma pushMusic_tree_call:
  assumes run: "pushMusic E params = (log, res)"
    and tree: "CreateTree t ow rp items base \<in> set log"
  obtains (tree_call) token latestCommitSha log3 st prev blobSha where
    "prepared E params token latestCommitSha log3 st"
    "readTextFileFromRepo E log3 (readManifestCall E token) = Inr prev"
    "createBlob E (log3 @ [readManifestCall E token])
       (manifestBlobCall E token (updatedMusicList st)) = Inr blobSha"
    "CreateTree t ow rp items base =
       treeCall E token
         (treeItems st @ staleItems E prev (updatedMusicList st) @ [manifestItem blobSha])
         latestCommitSha"
    "take (length log3 + 3) log =
       log3 @ [readManifestCall E token, manifestBlobCall E token (updatedMusicList st),
               CreateTree t ow rp items base]"
    "filter isCreateTree log = [CreateTree t ow rp items base]"
proof (cases "\<exists>token latestCommitSha log3 st. prepared E params token latestCommitSha log3 st")
  case False
  with pushMusic_unprepared [OF run] have "filter isCreateTree log = []" by blast
  moreover from tree have "CreateTree t ow rp items base \<in> set (filter isCreateTree log)" by simp
  ultimately show ?thesis by simp
next
  case True
  then obtain token latestCommitSha log3 st where
    prep: "prepared E params token latestCommitSha log3 st" by blast
  from prepared_log [OF prep] obtain cs where
    cs: "log3 = [GetAuthToken, refCall E token] @ cs" "list_all isCreateBlob cs" by blast
  have no3: "filter isCreateTree log3 = []"
    using cs isCreateBlob_not_tree [OF cs(2)] by simp
  then have notin3: "CreateTree t ow rp items base \<notin> set log3"
    by (metis filter_empty_conv isCreateTree.simps(1))
  let ?c4 = "readManifestCall E token"
  let ?c5 = "manifestBlobCall E token (updatedMusicList st)"
  have "\<exists>prev blobSha rest.
          readTextFileFromRepo E log3 ?c4 = Inr prev \<and>
          createBlob E (log3 @ [?c4]) ?c5 = Inr blobSha \<and>
          log = log3 @ [?c4, ?c5,
                  treeCall E token
                    (treeItems st @ staleItems E prev (updatedMusicList st) @ [manifestItem blobSha])
                    latestCommitSha] @ rest \<and>
          filter isCreateTree rest = []"
  proof (cases "readTextFileFromRepo E log3 ?c4")
    case (Inl e)
    with run have "log = log3 @ [?c4]"
      unfolding pushMusic_prepared [OF prep] by simp
    with tree notin3 show ?thesis by simp
  next
    case prev: (Inr prev)
    show ?thesis
    proof (cases "createBlob E (log3 @ [?c4]) ?c5")
      case (Inl e)
      with run prev have "log = log3 @ [?c4, ?c5]"
        unfolding pushMusic_prepared [OF prep] by simp
      with tree notin3 show ?thesis by simp
    next
      case blob: (Inr blobSha)
      let ?c6 = "treeCall E token
                   (treeItems st @ staleItems E prev (updatedMusicList st) @ [manifestItem blobSha])
                   latestCommitSha"
      have "\<exists>rest. log = log3 @ [?c4, ?c5, ?c6] @ rest \<and> filter isCreateTree rest = []"
      proof (cases "createTree E (log3 @ [?c4, ?c5]) ?c6")
        case (Inl e)
        with run prev blob have "log = log3 @ [?c4, ?c5, ?c6] @ []"
          unfolding pushMusic_prepared [OF prep] by simp
        then show ?thesis by (intro exI [of _ "[]"]) simp
      next
        case treeSha: (Inr treeSha)
        let ?c7 = "commitCall E token treeSha latestCommitSha"
        show ?thesis
        proof (cases "createCommit E (log3 @ [?c4, ?c5, ?c6]) ?c7")
          case (Inl e)
          with run prev blob treeSha have "log = log3 @ [?c4, ?c5, ?c6] @ [?c7]"
            unfolding pushMusic_prepared [OF prep] by simp
          then show ?thesis by (intro exI [of _ "[?c7]"]) simp
        next
          case (Inr commitSha)
          with run prev blob treeSha
          have "log = log3 @ [?c4, ?c5, ?c6] @ [?c7, updateCall E token commitSha]"
            unfolding pushMusic_prepared [OF prep] by simp
          then show ?thesis
            by (intro exI [of _ "[?c7, updateCall E token commitSha]"]) simp
        qed
      qed
      with prev blob show ?thesis by blast
    qed
  qed
  then obtain prev blobSha rest where
    prev: "readTextFileFromRepo E log3 ?c4 = Inr prev" and
    blob: "createBlob E (log3 @ [?c4]) ?c5 = Inr blobSha" and
    log: "log = log3 @ [?c4, ?c5,
                  treeCall E token
                    (treeItems st @ staleItems E prev (updatedMusicList st) @ [manifestItem blobSha])
                    latestCommitSha] @ rest" and
    rest: "filter isCreateTree rest = []"
    by blast
  let ?c6 = "treeCall E token
               (treeItems st @ staleItems E prev (updatedMusicList st) @ [manifestItem blobSha])
               latestCommitSha"
  have only: "filter isCreateTree log = [?c6]"
    using log no3 rest by simp
  from tree have "CreateTree t ow rp items base \<in> set (filter isCreateTree log)" by simp
  with only have same: "CreateTree t ow rp items base = ?c6" by simp
  have tk: "take (length log3 + 3) log = log3 @ [?c4, ?c5, CreateTree t ow rp items base]"
    using log same by simp
  have only': "filter isCreateTree log = [CreateTree t ow rp items base]"
    using only same by simp
  show ?thesis by (rule that [OF prep prev blob same tk only'])
qed

lemma pushMusic_only_tree_call:
  assumes "pushMusic E params = (log, res)"
    and "CreateTree t ow rp items base \<in> set log"
  shows "filter isCreateTree log = [CreateTree t ow rp items base]"
  using assms
proof (cases rule: pushMusic_tree_call)
  case (tree_call token latestCommitSha log3 st prev blobSha)
  then show ?thesis by simp
qed

lemma pushMusic_success:
  assumes run: "pushMusic E params = (log, Inr ())"
  obtains (success) token latestCommitSha log3 st prev blobSha treeSha commitSha where
    "prepared E params token latestCommitSha log3 st"
    "readTextFileFromRepo E log3 (readManifestCall E token) = Inr prev"
    "createBlob E (log3 @ [readManifestCall E token])
       (manifestBlobCall E token (updatedMusicList st)) = Inr blobSha"
    "log = log3 @
       [readManifestCall E token, manifestBlobCall E token (updatedMusicList st),
        treeCall E token
          (treeItems st @ staleItems E prev (updatedMusicList st) @ [manifestItem blobSha])
          latestCommitSha,
        commitCall E token treeSha latestCommitSha,
        updateCall E token commitSha]"
proof (cases "\<exists>token latestCommitSha log3 st. prepared E params token latestCommitSha log3 st")
  case False
  with pushMusic_unprepared [OF run] show ?thesis by blast
next
  case True
  then obtain token latestCommitSha log3 st where
    prep: "prepared E params token latestCommitSha log3 st" by blast
  let ?c4 = "readManifestCall E token"
  let ?c5 = "manifestBlobCall E token (updatedMusicList st)"
  from run obtain prev where prev: "readTextFileFromRepo E log3 ?c4 = Inr prev"
    unfolding pushMusic_prepared [OF prep]
    by (cases "readTextFileFromRepo E log3 ?c4") auto
  from run prev obtain blobSha where blob: "createBlob E (log3 @ [?c4]) ?c5 = Inr blobSha"
    unfolding pushMusic_prepared [OF prep]
    by (cases "createBlob E (log3 @ [?c4]) ?c5") auto
  let ?c6 = "treeCall E token
               (treeItems st @ staleItems E prev (updatedMusicList st) @ [manifestItem blobSha])
               latestCommitSha"
  from run prev blob obtain treeSha where
    treeSha: "createTree E (log3 @ [?c4, ?c5]) ?c6 = Inr treeSha"
    unfolding pushMusic_prepared [OF prep]
    by (cases "createTree E (log3 @ [?c4, ?c5]) ?c6") auto
  let ?c7 = "commitCall E token treeSha latestCommitSha"
  from run prev blob treeSha obtain commitSha where
    commitSha: "createCommit E (log3 @ [?c4, ?c5, ?c6]) ?c7 = Inr commitSha"
    unfolding pushMusic_prepared [OF prep]
    by (cases "createCommit E (log3 @ [?c4, ?c5, ?c6]) ?c7") auto
  from run prev blob treeSha commitSha
  have log: "log = log3 @ [?c4, ?c5, ?c6, ?c7, updateCall E token commitSha]"
    unfolding pushMusic_prepared [OF prep] by simp
  show ?thesis by (rule that [OF prep prev blob log])
qed

section \<open>One tree for adds, deletes and the manifest\<close>

text \<open>
  C6. A publish makes at most one tree-creation call, and a publish that returns makes
  exactly one. The entries of every tree-creation call are the entries that add the
  uploaded blobs, followed by the entries that delete the stale files, followed by the
  entry of the manifest path \<open>src/app/music/list.json\<close>; the call is made right after
  the creation of the manifest blob, whose content is the encoded serialization, with a
  tab as indentation, of the desired list after the remapping, and the manifest entry
  points at the sha which that creation returned. Adds and deletes thus travel in the
  same call.
\<close>

theorem pushMusic_single_tree_call:
  assumes "pushMusic E params = (log, res)"
  shows "length (filter isCreateTree log) \<le> 1 \<and>
         (res = Inr () \<longrightarrow> length (filter isCreateTree log) = 1) \<and>
         (\<forall>t ow rp items base. CreateTree t ow rp items base \<in> set log \<longrightarrow>
            (\<exists>token latestCommitSha log3 st prev blobSha.
               prepared E params token latestCommitSha log3 st \<and>
               readTextFileFromRepo E log3 (readManifestCall E token) = Inr prev \<and>
               createBlob E (log3 @ [readManifestCall E token])
                 (manifestBlobCall E token (updatedMusicList st)) = Inr blobSha \<and>
               CreateTree t ow rp items base =
                 treeCall E token
                   (treeItems st @ staleItems E prev (updatedMusicList st) @
                      [manifestItem blobSha])
                   latestCommitSha \<and>
               take (length log3 + 3) log =
                 log3 @ [readManifestCall E token,
                   manifestBlobCall E token (updatedMusicList st),
                   CreateTree t ow rp items base]))"
proof (intro conjI allI impI)
  show "length (filter isCreateTree log) \<le> 1"
  proof (cases "filter isCreateTree log")
    case Nil
    then show ?thesis by simp
  next
    case (Cons c cs)
    then have "c \<in> set (filter isCreateTree log)" by simp
    then have c: "c \<in> set log" "isCreateTree c" by simp_all
    from c(2) obtain t ow rp items base where "c = CreateTree t ow rp items base"
      by (cases c) auto
    with c have "CreateTree t ow rp items base \<in> set log" by simp
    from pushMusic_only_tree_call [OF assms this] show ?thesis by simp
  qed
next
  assume "res = Inr ()"
  with assms have "pushMusic E params = (log, Inr ())" by simp
  then show "length (filter isCreateTree log) = 1"
  proof (cases rule: pushMusic_success)
    case (success token latestCommitSha log3 st prev blobSha treeSha commitSha)
    then have "treeCall E token
       (treeItems st @ staleItems E prev (updatedMusicList st) @ [manifestItem blobSha])
       latestCommitSha \<in> set log"
      by simp
    from pushMusic_only_tree_call [OF assms this] show ?thesis by simp
  qed
next
  fix t ow rp items base
  assume "CreateTree t ow rp items base \<in> set log"
  with assms
  show "\<exists>token latestCommitSha log3 st prev blobSha.
               prepared E params token latestCommitSha log3 st \<and>
               readTextFileFromRepo E log3 (readManifestCall E token) = Inr prev \<and>
               createBlob E (log3 @ [readManifestCall E token])
                 (manifestBlobCall E token (updatedMusicList st)) = Inr blobSha \<and>
               CreateTree t ow rp items base =
                 treeCall E token
                   (treeItems st @ staleItems E prev (updatedMusicList st) @
                      [manifestItem blobSha])
                   latestCommitSha \<and>
               take (length log3 + 3) log =
                 log3 @ [readManifestCall E token,
                   manifestBlobCall E token (updatedMusicList st),
                   CreateTree t ow rp items base]"
  proof (cases rule: pushMusic_tree_call)
    case (tree_call token latestCommitSha log3 st prev blobSha)
    show ?thesis
      by (intro exI [of _ token] exI [of _ latestCommitSha] exI [of _ log3] exI [of _ st]
        exI [of _ prev] exI [of _ blobSha] conjI tree_call(1-5))
  qed
qed

theorem pushMusic_single_tree_call_witness:
  "pushMusic (demoEnv None (Some ''[A,X]'') exampleParse) exampleParams = (exampleLog, Inr ()) \<and>
   length (filter isCreateTree exampleLog) = 1"
  using pushMusic_single_tree_call [OF example_run] example_run by simp

section \<open>A publish without pending uploads\<close>

lemma uploadMusicFiles_none:
  assumes "musicFileItems params = None \<or> musicFileItems params = Some []"
  shows "uploadMusicFiles E token params log0 =
           (log0, Inr \<lparr>treeItems = [], uploadedHashes = {}, updatedMusicList = musicList params\<rparr>)"
  using assms by (auto simp: uploadMusicFiles_def Let_def return_io_def)

text \<open>
  C7. When the map of pending uploads is absent or empty, every blob that a publish
  creates is the manifest blob, and its content is the encoded serialization of the input
  list itself, tracks and order as given; the upload leaves the desired list as it was
  and adds no entry. A publish that returns has made exactly the calls for the token, the
  ref, the previous manifest, this blob, the tree with the manifest entry pointing at the
  blob, the commit and the ref update.
\<close>

theorem no_pending_uploads_manifest_is_input:
  assumes run: "pushMusic E params = (log, res)"
    and none: "musicFileItems params = None \<or> musicFileItems params = Some []"
  shows "(\<forall>t ow rp content enc. CreateBlob t ow rp content enc \<in> set log \<longrightarrow>
            content = toBase64Utf8 E (JSON_stringify E (musicList params) [CHR 0x09])) \<and>
         (\<forall>token latestCommitSha log3 st. prepared E params token latestCommitSha log3 st \<longrightarrow>
            updatedMusicList st = musicList params \<and> treeItems st = []) \<and>
         (res = Inr () \<longrightarrow>
            (\<exists>token latestCommitSha prev blobSha treeSha commitSha.
               createBlob E [GetAuthToken, refCall E token, readManifestCall E token]
                 (manifestBlobCall E token (musicList params)) = Inr blobSha \<and>
               log = [GetAuthToken, refCall E token, readManifestCall E token,
                      manifestBlobCall E token (musicList params),
                      treeCall E token
                        (staleItems E prev (musicList params) @ [manifestItem blobSha])
                        latestCommitSha,
                      commitCall E token treeSha latestCommitSha,
                      updateCall E token commitSha]))"
proof (intro conjI allI impI)
  fix token latestCommitSha log3 st
  assume "prepared E params token latestCommitSha log3 st"
  then show "updatedMusicList st = musicList params" and "treeItems st = []"
    by (auto simp: prepared_def uploadMusicFiles_none [OF none])
next
  assume "res = Inr ()"
  with run have "pushMusic E params = (log, Inr ())" by simp
  then show "\<exists>token latestCommitSha prev blobSha treeSha commitSha.
               createBlob E [GetAuthToken, refCall E token, readManifestCall E token]
                 (manifestBlobCall E token (musicList params)) = Inr blobSha \<and>
               log = [GetAuthToken, refCall E token, readManifestCall E token,
                      manifestBlobCall E token (musicList params),
                      treeCall E token
                        (staleItems E prev (musicList params) @ [manifestItem blobSha])
                        latestCommitSha,
                      commitCall E token treeSha latestCommitSha,
                      updateCall E token commitSha]"
  proof (cases rule: pushMusic_success)
    case (success token latestCommitSha log3 st prev blobSha treeSha commitSha)
    from success(1) have st: "log3 = [GetAuthToken, refCall E token]"
      "updatedMusicList st = musicList params" "treeItems st = []"
      by (auto simp: prepared_def uploadMusicFiles_none [OF none])
    show ?thesis
      using success(3,4) st
      by (intro exI [of _ token] exI [of _ latestCommitSha] exI [of _ prev] exI [of _ blobSha]
          exI [of _ treeSha] exI [of _ commitSha]) simp
  qed
next
  fix t ow rp content enc
  assume blob: "CreateBlob t ow rp content enc \<in> set log"
  show "content = toBase64Utf8 E (JSON_stringify E (musicList params) [CHR 0x09])"
  proof (cases "getAuthToken E [] GetAuthToken")
    case (Inl e)
    with run blob show ?thesis by (auto simp: pushMusic_def io_defs)
  next
    case token: (Inr token)
    show ?thesis
    proof (cases "getRef E [GetAuthToken] (refCall E token)")
      case (Inl e)
      with run blob token show ?thesis by (auto simp: pushMusic_def io_defs)
    next
      case (Inr latestCommitSha)
      with token have prep: "prepared E params token latestCommitSha [GetAuthToken, refCall E token]
        \<lparr>treeItems = [], uploadedHashes = {}, updatedMusicList = musicList params\<rparr>"
        by (simp add: prepared_def uploadMusicFiles_none [OF none])
      from run blob show ?thesis
        unfolding pushMusic_prepared [OF prep]
        by (auto split: sum.splits)
    qed
  qed
qed

lemma plain_run: "pushMusic (demoEnv None None exampleParse) plainParams = (plainLog, Inr ())"
  by (simp add: run_defs plainParams_def plainLog_def)

theorem no_pending_uploads_manifest_is_input_witness:
  "pushMusic (demoEnv None None exampleParse) plainParams = (plainLog, Inr ()) \<and>
   (\<exists>token latestCommitSha prev blobSha treeSha commitSha.
      createBlob (demoEnv None None exampleParse)
        [GetAuthToken, refCall (demoEnv None None exampleParse) token,
         readManifestCall (demoEnv None None exampleParse) token]
        (manifestBlobCall (demoEnv None None exampleParse) token (musicList plainParams)) =
        Inr blobSha \<and>
      plainLog =
        [GetAuthToken, refCall (demoEnv None None exampleParse) token,
         readManifestCall (demoEnv None None exampleParse) token,
         manifestBlobCall (demoEnv None None exampleParse) token (musicList plainParams),
         treeCall (demoEnv None None exampleParse) token
           (staleItems (demoEnv None None exampleParse) prev (musicList plainParams) @
              [manifestItem blobSha])
           latestCommitSha,
         commitCall (demoEnv None None exampleParse) token treeSha latestCommitSha,
         updateCall (demoEnv None None exampleParse) token commitSha])"
proof -
  have none: "musicFileItems plainParams = None \<or> musicFileItems plainParams = Some []"
    by (simp add: plainParams_def)
  show ?thesis
    by (rule conjI [OF plain_run
          no_pending_uploads_manifest_is_input [OF plain_run none, THEN conjunct2,
            THEN conjunct2, THEN mp, OF refl]])
qed

section \<open>A previous manifest that is absent or does not parse\<close>

lemma addItems_have_sha:
  "it \<in> set (map2 (\<lambda>x s. addItem (fst x) (snd x) s) news shas) \<Longrightarrow> sha it \<noteq> None"
  by (auto simp: addItem_def)

text \<open>What the upload has done when it returns: one blob for each new upload.\<close>

lemma prepared_adds:
  assumes "prepared E params token latestCommitSha log3 st"
  obtains (adds) shas where
    "log3 = [GetAuthToken, refCall E token] @
       map (\<lambda>x. audioBlobCall E token (snd x)) (newUploads E {} (pending params))"
    "length shas = length (newUploads E {} (pending params))"
    "treeItems st =
       map2 (\<lambda>x s. addItem (fst x) (snd x) s) (newUploads E {} (pending params)) shas"
    "\<forall>i < length shas.
       createBlob E
         ([GetAuthToken, refCall E token] @
            take i (map (\<lambda>x. audioBlobCall E token (snd x)) (newUploads E {} (pending params))))
         (audioBlobCall E token (snd (newUploads E {} (pending params) ! i))) = Inr (shas ! i)"
    "uploadedHashes st = fst ` set (newUploads E {} (pending params))"
proof -
  let ?st0 = "\<lparr>treeItems = [], uploadedHashes = {}, updatedMusicList = musicList params\<rparr>"
  from assms have run: "uploadFiles E token (pending params) ?st0
       [GetAuthToken, refCall E token] = (log3, Inr st)"
    by (simp add: prepared_def uploadMusicFiles_loop)
  have sel: "uploadedHashes ?st0 = {}" "treeItems ?st0 = []" by simp_all
  from uploadFiles_returns [OF run] obtain shas where
    1: "log3 = [GetAuthToken, refCall E token] @
       map (\<lambda>x. audioBlobCall E token (snd x)) (newUploads E (uploadedHashes ?st0) (pending params))" and
    2: "length shas = length (newUploads E (uploadedHashes ?st0) (pending params))" and
    3: "treeItems st = treeItems ?st0 @
       map2 (\<lambda>x s. addItem (fst x) (snd x) s) (newUploads E (uploadedHashes ?st0) (pending params)) shas" and
    4: "\<forall>i < length shas.
       createBlob E
         ([GetAuthToken, refCall E token] @
            take i (map (\<lambda>x. audioBlobCall E token (snd x)) (newUploads E (uploadedHashes ?st0) (pending params))))
         (audioBlobCall E token (snd (newUploads E (uploadedHashes ?st0) (pending params) ! i))) = Inr (shas ! i)" and
    5: "uploadedHashes st = uploadedHashes ?st0 \<union> fst ` set (newUploads E (uploadedHashes ?st0) (pending params))"
    by (elim exE conjE) (rule that)
  show ?thesis
    by (rule that [OF 1 [unfolded sel] 2 [unfolded sel] _ 4 [unfolded sel]])
       (use 3 5 in \<open>simp_all only: sel append_Nil Un_empty_left\<close>)
qed

lemma prepared_adds_have_sha:
  assumes "prepared E params token latestCommitSha log3 st" and "it \<in> set (treeItems st)"
  shows "sha it \<noteq> None"
  using assms(1)
proof (cases rule: prepared_adds)
  case (adds shas)
  from assms(2) have "it \<in> set (map2 (\<lambda>x s. addItem (fst x) (snd x) s)
     (newUploads E {} (pending params)) shas)"
    unfolding adds(3) .
  then show ?thesis by (rule addItems_have_sha)
qed

lemma staleItems_unparsed:
  assumes "prev = None \<or> (\<exists>text. prev = Some text \<and> JSON_parse E text = None)"
  shows "staleItems E prev updated = []"
  using assms by (auto simp: staleItems_def)

text \<open>
  C4. When the read of the previous manifest returns no file, or a text that
  \<open>JSON.parse\<close> rejects, the scan yields no entry: no tree-creation call of the publish
  carries an entry with a null sha. The publish goes on with the creation of the manifest
  blob, and when the four remaining calls return it returns, having created the tree from
  the upload entries and the manifest entry, the commit and the ref update.
\<close>

theorem unreadable_manifest_no_deletes:
  assumes prep: "prepared E params token latestCommitSha log3 st"
    and read: "readTextFileFromRepo E log3 (readManifestCall E token) = Inr prev"
    and bad: "prev = None \<or> (\<exists>text. prev = Some text \<and> JSON_parse E text = None)"
  shows "staleItems E prev (updatedMusicList st) = [] \<and>
         (\<exists>rest res.
            pushMusic E params =
              (log3 @ [readManifestCall E token,
                 manifestBlobCall E token (updatedMusicList st)] @ rest, res) \<and>
            (\<forall>t ow rp items base. CreateTree t ow rp items base \<in> set rest \<longrightarrow>
               (\<forall>it \<in> set items. sha it \<noteq> None))) \<and>
         (\<forall>blobSha treeSha commitSha.
            createBlob E (log3 @ [readManifestCall E token])
              (manifestBlobCall E token (updatedMusicList st)) = Inr blobSha \<and>
            createTree E
              (log3 @ [readManifestCall E token, manifestBlobCall E token (updatedMusicList st)])
              (treeCall E token (treeItems st @ [manifestItem blobSha]) latestCommitSha) =
                Inr treeSha \<and>
            createCommit E
              (log3 @ [readManifestCall E token, manifestBlobCall E token (updatedMusicList st),
                 treeCall E token (treeItems st @ [manifestItem blobSha]) latestCommitSha])
              (commitCall E token treeSha latestCommitSha) = Inr commitSha \<and>
            updateRef E
              (log3 @ [readManifestCall E token, manifestBlobCall E token (updatedMusicList st),
                 treeCall E token (treeItems st @ [manifestItem blobSha]) latestCommitSha,
                 commitCall E token treeSha latestCommitSha])
              (updateCall E token commitSha) = Inr () \<longrightarrow>
            pushMusic E params =
              (log3 @ [readManifestCall E token, manifestBlobCall E token (updatedMusicList st),
                 treeCall E token (treeItems st @ [manifestItem blobSha]) latestCommitSha,
                 commitCall E token treeSha latestCommitSha,
                 updateCall E token commitSha], Inr ()))"
proof (intro conjI allI impI)
  show stale: "staleItems E prev (updatedMusicList st) = []"
    using bad by (rule staleItems_unparsed)
  have adds: "\<forall>it \<in> set (treeItems st @ [manifestItem blobSha]). sha it \<noteq> None" for blobSha
    using prepared_adds_have_sha [OF prep] by (auto simp: manifestItem_def)
  show "\<exists>rest res.
            pushMusic E params =
              (log3 @ [readManifestCall E token,
                 manifestBlobCall E token (updatedMusicList st)] @ rest, res) \<and>
            (\<forall>t ow rp items base. CreateTree t ow rp items base \<in> set rest \<longrightarrow>
               (\<forall>it \<in> set items. sha it \<noteq> None))"
    unfolding pushMusic_prepared [OF prep]
    using read stale adds
    by (auto split: sum.splits)
next
  fix blobSha treeSha commitSha
  assume "createBlob E (log3 @ [readManifestCall E token])
              (manifestBlobCall E token (updatedMusicList st)) = Inr blobSha \<and>
            createTree E
              (log3 @ [readManifestCall E token, manifestBlobCall E token (updatedMusicList st)])
              (treeCall E token (treeItems st @ [manifestItem blobSha]) latestCommitSha) =
                Inr treeSha \<and>
            createCommit E
              (log3 @ [readManifestCall E token, manifestBlobCall E token (updatedMusicList st),
                 treeCall E token (treeItems st @ [manifestItem blobSha]) latestCommitSha])
              (commitCall E token treeSha latestCommitSha) = Inr commitSha \<and>
            updateRef E
              (log3 @ [readManifestCall E token, manifestBlobCall E token (updatedMusicList st),
                 treeCall E token (treeItems st @ [manifestItem blobSha]) latestCommitSha,
                 commitCall E token treeSha latestCommitSha])
              (updateCall E token commitSha) = Inr ()"
  then show "pushMusic E params =
              (log3 @ [readManifestCall E token, manifestBlobCall E token (updatedMusicList st),
                 treeCall E token (treeItems st @ [manifestItem blobSha]) latestCommitSha,
                 commitCall E token treeSha latestCommitSha,
                 updateCall E token commitSha], Inr ())"
    unfolding pushMusic_prepared [OF prep]
    using read staleItems_unparsed [OF bad, of "updatedMusicList st"]
    by simp
qed

theorem unreadable_manifest_no_deletes_witness:
  "pushMusic (demoEnv None (Some ''<html>'') exampleParse) exampleParams =
     ([GetAuthToken,
       GetRef ''token'' ''owner'' ''repo'' ''heads/main'',
       CreateBlob ''token'' ''owner'' ''repo'' ''deadbeef'' ''base64'',
       ReadTextFileFromRepo ''token'' ''owner'' ''repo'' ''src/app/music/list.json'' ''main'',
       CreateBlob ''token'' ''owner'' ''repo'' (CHR 0x09 # ''B=/music/deadbeef.mp3;'') ''base64'',
       CreateTree ''token'' ''owner'' ''repo''
         [\<lparr>path = ''public/music/deadbeef.mp3'', mode = ''100644'', type = ''blob'',
           sha = Some ''sha++''\<rparr>,
          \<lparr>path = ''src/app/music/list.json'', mode = ''100644'', type = ''blob'',
           sha = Some ''sha++++''\<rparr>]
         ''tip'',
       CreateCommit ''token'' ''owner'' ''repo'' commitMessage ''sha+++++'' [''tip''],
       UpdateRef ''token'' ''owner'' ''repo'' ''heads/main'' ''sha++++++''],
      Inr ())"
proof -
  let ?E = "demoEnv None (Some ''<html>'') exampleParse"
  let ?log3 = "[GetAuthToken,
       GetRef ''token'' ''owner'' ''repo'' ''heads/main'',
       CreateBlob ''token'' ''owner'' ''repo'' ''deadbeef'' ''base64'']"
  let ?st = "\<lparr>treeItems = [\<lparr>path = ''public/music/deadbeef.mp3'', mode = ''100644'',
                  type = ''blob'', sha = Some ''sha++''\<rparr>],
               uploadedHashes = {''deadbeef''},
               updatedMusicList = [\<lparr>name = ''B'', url = ''/music/deadbeef.mp3''\<rparr>]\<rparr>"
  have prep: "prepared ?E exampleParams ''token'' ''tip'' ?log3 ?st"
    by (simp add: prepared_def run_defs example_defs)
  have read: "readTextFileFromRepo ?E ?log3 (readManifestCall ?E ''token'') = Inr (Some ''<html>'')"
    by (simp add: demo_defs)
  have bad: "Some ''<html>'' = None \<or>
      (\<exists>text. Some ''<html>'' = Some text \<and> JSON_parse ?E text = None)"
    by (simp add: demo_defs exampleParse_def)
  from unreadable_manifest_no_deletes [OF prep read bad, THEN conjunct2, THEN conjunct2,
      rule_format, of "''sha++++''" "''sha+++++''" "''sha++++++''"]
  show ?thesis
    by (simp add: demo_defs manifestItem_def)
qed

section \<open>Uploads that no track refers to\<close>





section \<open>Two pending files with the same bytes\<close>

lemma twin_prepared:
  "prepared (demoEnv None None exampleParse) twinParams ''token'' ''tip''
     [GetAuthToken, GetRef ''token'' ''owner'' ''repo'' ''heads/main'',
      CreateBlob ''token'' ''owner'' ''repo'' ''abc'' ''base64''] twinLocals"
  by (simp add: prepared_def run_defs twinParams_def twinLocals_def)

lemma twin_run: "pushMusic (demoEnv None None exampleParse) twinParams = (twinLog, Inr ())"
  by (simp add: run_defs twinParams_def twinLog_def)







text \<open>
  C2, at two pending files with the same bytes and the names \<open>a.mp3\<close> and \<open>a.wav\<close>:
  one blob is stored, at \<open>public/music/abc.mp3\<close>; the track of the first key is
  remapped to \<open>/music/abc.mp3\<close> and the track of the second key to
  \<open>/music/abc.wav\<close>, a path at which the tree of the publish adds nothing.
\<close>

theorem identical_content_different_ext:
  "pushMusic (demoEnv None None exampleParse) twinParams = (twinLog, Inr ()) \<and>
   prepared (demoEnv None None exampleParse) twinParams ''token'' ''tip''
     [GetAuthToken, GetRef ''token'' ''owner'' ''repo'' ''heads/main'',
      CreateBlob ''token'' ''owner'' ''repo'' ''abc'' ''base64''] twinLocals \<and>
   map url (updatedMusicList twinLocals) = [''/music/abc.mp3'', ''/music/abc.wav''] \<and>
   map path (treeItems twinLocals) = [''public/music/abc.mp3'']"
  using twin_run twin_prepared by (simp add: twinLocals_def)

section \<open>The scan for stale files\<close>

lemma replace_owned:
  assumes "startsWith u ''/music/''"
  shows "replace u ''/music/'' [] = drop 7 u"
proof (cases u)
  case Nil
  with assms show ?thesis by (simp add: startsWith_def)
next
  case (Cons c cs)
  have "(7::nat) = length ''/music/''" by simp
  with assms Cons show ?thesis by (simp only: replace.simps if_True append_Nil)
qed

lemma owned_split: "startsWith u ''/music/'' \<Longrightarrow> u = ''/music/'' @ drop 7 u"
proof -
  assume "startsWith u ''/music/''"
  then have "take (length ''/music/'') u = ''/music/''" by (simp only: startsWith_def)
  moreover have "length ''/music/'' = 7" by simp
  ultimately have "take 7 u = ''/music/''" by (simp only:)
  then show ?thesis by (metis append_take_drop_id)
qed

lemma deleteItem_owned:
  "startsWith u ''/music/'' \<Longrightarrow>
   deleteItem u = \<lparr>path = ''public/music/'' @ drop 7 u, mode = ''100644'', type = ''blob'', sha = None\<rparr>"
  by (simp add: deleteItem_def replace_owned)

lemma drop7_inj:
  assumes "startsWith u ''/music/''" "startsWith v ''/music/''" "drop 7 u = drop 7 v"
  shows "u = v"
  using owned_split [OF assms(1)] owned_split [OF assms(2)] assms(3) by simp

lemma set_Set_add: "set (Set_add s x) = insert x (set s)"
  by (auto simp: Set_add_def)

lemma distinct_Set_add: "distinct s \<Longrightarrow> distinct (Set_add s x)"
  by (simp add: Set_add_def)

lemma set_collectCurrentUrls:
  "set (collectCurrentUrls ms acc) =
     set acc \<union> {u \<in> url ` set ms. startsWith u ''/music/''}"
  by (induction ms arbitrary: acc) (auto simp: set_Set_add)

lemma collectPreviousUrls_Some:
  assumes "collectPreviousUrls musics acc = Some r"
  shows "set r = set acc \<union> {u. (\<exists>music \<in> set musics. musicUrl music = Some u) \<and> startsWith u ''/music/''} \<and>
         (distinct acc \<longrightarrow> distinct r)"
  using assms
proof (induction musics arbitrary: acc)
  case Nil
  then show ?case by simp
next
  case (Cons music rest)
  from Cons.prems obtain u where u: "musicUrl music = Some u"
    by (cases "musicUrl music") auto
  let ?acc = "if startsWith u ''/music/'' then Set_add acc u else acc"
  from Cons.prems u have "collectPreviousUrls rest ?acc = Some r" by simp
  from Cons.IH [OF this] have
    s: "set r = set ?acc \<union> {u. (\<exists>music \<in> set rest. musicUrl music = Some u) \<and> startsWith u ''/music/''}"
    and d: "distinct ?acc \<longrightarrow> distinct r"
    by blast+
  have "set r = set acc \<union> {u. (\<exists>music \<in> set (music # rest). musicUrl music = Some u) \<and> startsWith u ''/music/''}"
    unfolding s using u by (auto simp: set_Set_add)
  moreover have "distinct acc \<longrightarrow> distinct r"
    using d by (simp add: distinct_Set_add)
  ultimately show ?case by blast
qed

lemma collectPreviousUrls_typed:
  "map musicUrl musics = map Some urls \<Longrightarrow> \<exists>r. collectPreviousUrls musics acc = Some r"
proof (induction musics arbitrary: acc urls)
  case Nil
  then show ?case by simp
next
  case (Cons music rest)
  then obtain u urls' where "urls = u # urls'" "musicUrl music = Some u"
    "map musicUrl rest = map Some urls'"
    by (cases urls) auto
  with Cons.IH show ?case by simp
qed

text \<open>Every entry of the scan is the delete entry of an owned URL of the previous
  manifest that the new list lacks.\<close>

lemma staleItems_sound:
  assumes "it \<in> set (staleItems E prev updated)"
  shows "\<exists>ptext j musics u.
           prev = Some ptext \<and> JSON_parse E ptext = Some j \<and> iterate j = Some musics \<and>
           (\<exists>music \<in> set musics. musicUrl music = Some u) \<and>
           startsWith u ''/music/'' \<and> u \<notin> url ` set updated \<and>
           it = \<lparr>path = ''public/music/'' @ drop 7 u, mode = ''100644'', type = ''blob'',
                 sha = None\<rparr>"
proof -
  from assms obtain ptext where prev: "prev = Some ptext"
    by (cases prev) (auto simp: staleItems_def)
  from assms prev have ne: "ptext \<noteq> []"
    by (auto simp: staleItems_def)
  from assms prev ne obtain j where j: "JSON_parse E ptext = Some j"
    by (cases "JSON_parse E ptext") (auto simp: staleItems_def)
  from assms prev ne j obtain musics where musics: "iterate j = Some musics"
    by (cases "iterate j") (auto simp: staleItems_def)
  from assms prev ne j musics obtain prevs where prevs: "collectPreviousUrls musics [] = Some prevs"
    by (cases "collectPreviousUrls musics []") (auto simp: staleItems_def)
  from assms prev ne j musics prevs
  have it: "it \<in> set (map deleteItem
           (filter (\<lambda>u. u \<notin> set (collectCurrentUrls updated [])) prevs))"
    by (simp add: staleItems_def)
  from it obtain u where u: "u \<in> set prevs" "u \<notin> set (collectCurrentUrls updated [])"
    "it = deleteItem u"
    by auto
  from collectPreviousUrls_Some [OF prevs] u(1)
  have owned: "startsWith u ''/music/''" and ex: "\<exists>music \<in> set musics. musicUrl music = Some u"
    by auto
  from u(2) owned have absent: "u \<notin> url ` set updated"
    by (simp add: set_collectCurrentUrls)
  from prev j musics ex owned absent u(3) deleteItem_owned [OF owned] show ?thesis
    by (intro exI [of _ ptext] exI [of _ j] exI [of _ musics] exI [of _ u]) simp
qed

lemma staleItems_sha: "it \<in> set (staleItems E prev updated) \<Longrightarrow> sha it = None"
  using staleItems_sound [of it E prev updated] by auto

text \<open>The scan of a manifest that parses to an array of tracks.\<close>

lemma staleItems_parsed:
  assumes "ptext \<noteq> []" and "JSON_parse E ptext = Some (JArr musics)"
    and "map musicUrl musics = map Some previousUrls"
  obtains (scan) prevs where
    "staleItems E (Some ptext) updated =
       map (\<lambda>u. \<lparr>path = ''public/music/'' @ drop 7 u, mode = ''100644'', type = ''blob'',
                   sha = None\<rparr>)
         (filter (\<lambda>u. u \<notin> url ` set updated) prevs)"
    "distinct prevs"
    "set prevs = {u \<in> set previousUrls. startsWith u ''/music/''}"
proof -
  from collectPreviousUrls_typed [OF assms(3)] obtain prevs where
    prevs: "collectPreviousUrls musics [] = Some prevs" by blast
  from collectPreviousUrls_Some [OF prevs] have
    s: "set prevs = {u. (\<exists>music \<in> set musics. musicUrl music = Some u) \<and> startsWith u ''/music/''}"
    and d: "distinct prevs"
    by auto
  have "(\<exists>music \<in> set musics. musicUrl music = Some u) \<longleftrightarrow> u \<in> set previousUrls" for u
  proof -
    have "(\<exists>music \<in> set musics. musicUrl music = Some u) \<longleftrightarrow> Some u \<in> set (map musicUrl musics)"
      by force
    also have "\<dots> \<longleftrightarrow> u \<in> set previousUrls"
      unfolding assms(3) by auto
    finally show ?thesis .
  qed
  with s have s': "set prevs = {u \<in> set previousUrls. startsWith u ''/music/''}" by auto
  have owned: "\<forall>u \<in> set prevs. startsWith u ''/music/''" using s' by auto
  have "staleItems E (Some ptext) updated =
      map deleteItem (filter (\<lambda>u. u \<notin> set (collectCurrentUrls updated [])) prevs)"
    using assms(1,2) prevs by (simp add: staleItems_def)
  also have "filter (\<lambda>u. u \<notin> set (collectCurrentUrls updated [])) prevs =
      filter (\<lambda>u. u \<notin> url ` set updated) prevs"
    using owned by (intro filter_cong) (auto simp: set_collectCurrentUrls)
  also have "map deleteItem (filter (\<lambda>u. u \<notin> url ` set updated) prevs) =
      map (\<lambda>u. \<lparr>path = ''public/music/'' @ drop 7 u, mode = ''100644'', type = ''blob'',
                   sha = None\<rparr>)
         (filter (\<lambda>u. u \<notin> url ` set updated) prevs)"
    using owned by (intro map_cong) (auto simp: deleteItem_owned)
  finally show ?thesis using d s' by (rule that)
qed

text \<open>The entries with a null sha of a tree call are the entries of the scan.\<close>

lemma tree_call_deletes:
  assumes run: "pushMusic E params = (log, res)"
    and tree: "CreateTree t ow rp entries base \<in> set log"
    and prep: "prepared E params token latestCommitSha log3 st"
    and read: "readTextFileFromRepo E log3 (readManifestCall E token) = Inr prev"
  shows "filter (\<lambda>it. sha it = None) entries = staleItems E prev (updatedMusicList st)"
  using run tree
proof (cases rule: pushMusic_tree_call)
  case (tree_call token' latestCommitSha' log3' st' prev' blobSha)
  from prepared_unique [OF prep tree_call(1)] have
    same: "token' = token" "latestCommitSha' = latestCommitSha" "log3' = log3" "st' = st"
    by simp_all
  with tree_call(2) read have prev: "prev' = prev" by simp
  from tree_call(4) same prev have entries:
    "entries = treeItems st @ staleItems E prev (updatedMusicList st) @ [manifestItem blobSha]"
    by simp
  have "filter (\<lambda>it. sha it = None) (treeItems st) = []"
    using prepared_adds_have_sha [OF prep] by (simp add: filter_empty_conv)
  moreover have "filter (\<lambda>it. sha it = None) (staleItems E prev (updatedMusicList st)) =
      staleItems E prev (updatedMusicList st)"
    using staleItems_sha by (simp add: filter_id_conv)
  ultimately show ?thesis unfolding entries by (simp add: manifestItem_def)
qed

section \<open>Deletions: owned URLs that the new list lacks\<close>

lemma example_prepared:
  "prepared (demoEnv None (Some ''[A,X]'') exampleParse) exampleParams ''token'' ''tip''
     [GetAuthToken, GetRef ''token'' ''owner'' ''repo'' ''heads/main'',
      CreateBlob ''token'' ''owner'' ''repo'' ''deadbeef'' ''base64''] exampleLocals"
  by (simp add: prepared_def run_defs example_defs exampleLocals_def)

lemma example_tree:
  "CreateTree ''token'' ''owner'' ''repo'' exampleEntries ''tip'' \<in> set exampleLog"
  by (simp add: exampleLog_def exampleEntries_def)

text \<open>
  C1, as stated, fails at a previous manifest that \<open>JSON.parse\<close> accepts and whose
  second element has no \<open>url\<close>: the type error is caught, and the publish deletes
  nothing, although \<open>/music/old.mp3\<close> is in the previous manifest and not in the new
  list.
\<close>

theorem stale_owned_url_kept_when_an_element_lacks_url:
  "JSON_parse (demoEnv None (Some ''[A,N]'') looseParse) ''[A,N]'' =
     Some (JArr [JObj [(''name'', JStr ''A''), (''url'', JStr ''/music/old.mp3'')],
                 JObj [(''name'', JStr ''no url'')]]) \<and>
   musicUrl (JObj [(''name'', JStr ''A''), (''url'', JStr ''/music/old.mp3'')]) =
     Some ''/music/old.mp3'' \<and>
   startsWith ''/music/old.mp3'' ''/music/'' \<and>
   ''/music/old.mp3'' \<notin> set (map url (musicList plainParams)) \<and>
   staleItems (demoEnv None (Some ''[A,N]'') looseParse) (Some ''[A,N]'') (musicList plainParams) = [] \<and>
   pushMusic (demoEnv None (Some ''[A,N]'') looseParse) plainParams = (plainLog, Inr ()) \<and>
   filter isCreateTree plainLog =
     [CreateTree ''token'' ''owner'' ''repo''
        [\<lparr>path = ''src/app/music/list.json'', mode = ''100644'', type = ''blob'',
          sha = Some ''sha+++''\<rparr>] ''tip'']"
  by (simp add: run_defs looseParse_def plainParams_def plainLog_def)

text \<open>
  C1, as amended. Let the previous manifest be read as a non-empty text that \<open>JSON.parse\<close> turns
  into an array whose elements are objects with a string \<open>url\<close>, the URLs being
  \<open>previousUrls\<close>. Then the entries with a null sha of the tree-creation call of the
  publish are exactly the entries \<open>public/music/<filename>\<close> for the URLs
  \<open>/music/<filename>\<close> of the previous manifest that are not the url of a track of the
  desired list after the remapping, one entry for each such URL; and for a URL under
  \<open>/music/\<close> that occurs in both lists no entry with a null sha has its path.
\<close>

theorem stale_owned_urls_deleted:
  assumes run: "pushMusic E params = (log, res)"
    and tree: "CreateTree t ow rp entries base \<in> set log"
    and prep: "prepared E params token latestCommitSha log3 st"
    and read: "readTextFileFromRepo E log3 (readManifestCall E token) = Inr (Some ptext)"
    and nonempty: "ptext \<noteq> []"
    and parse: "JSON_parse E ptext = Some (JArr musics)"
    and urls: "map musicUrl musics = map Some previousUrls"
  shows "set (filter (\<lambda>it. sha it = None) entries) =
           (\<lambda>u. \<lparr>path = ''public/music/'' @ drop 7 u, mode = ''100644'', type = ''blob'',
                   sha = None\<rparr>) `
             {u \<in> set previousUrls.
                startsWith u ''/music/'' \<and> u \<notin> url ` set (updatedMusicList st)} \<and>
         distinct (map path (filter (\<lambda>it. sha it = None) entries)) \<and>
         (\<forall>u \<in> set previousUrls.
            startsWith u ''/music/'' \<and> u \<in> url ` set (updatedMusicList st) \<longrightarrow>
            (\<forall>it \<in> set entries. sha it = None \<longrightarrow> path it \<noteq> ''public/music/'' @ drop 7 u))"
proof -
  let ?del = "\<lambda>u. \<lparr>path = ''public/music/'' @ drop 7 u, mode = ''100644'', type = ''blob'',
                   sha = None :: string option\<rparr>"
  let ?updated = "updatedMusicList st"
  have dels: "filter (\<lambda>it. sha it = None) entries = staleItems E (Some ptext) ?updated"
    using run tree prep read by (rule tree_call_deletes)
  from nonempty parse urls show ?thesis
  proof (cases rule: staleItems_parsed [where updated = ?updated])
    case (scan prevs)
    let ?stale = "filter (\<lambda>u. u \<notin> url ` set ?updated) prevs"
    have eq: "filter (\<lambda>it. sha it = None) entries = map ?del ?stale"
      using dels scan(1) by simp
    have owned: "\<forall>u \<in> set ?stale. startsWith u ''/music/''"
      using scan(3) by auto
    have 1: "set (filter (\<lambda>it. sha it = None) entries) =
           ?del ` {u \<in> set previousUrls.
                startsWith u ''/music/'' \<and> u \<notin> url ` set ?updated}"
      unfolding eq using scan(3) by auto
    have "inj_on (\<lambda>u. ''public/music/'' @ drop 7 u) (set ?stale)"
    proof (rule inj_onI)
      fix x y
      assume x: "x \<in> set ?stale" and y: "y \<in> set ?stale"
        and "''public/music/'' @ drop 7 x = ''public/music/'' @ drop 7 y"
      then have "drop 7 x = drop 7 y" by simp
      with owned x y show "x = y" by (blast intro: drop7_inj)
    qed
    moreover have "distinct ?stale" using scan(2) by simp
    ultimately have "distinct (map (\<lambda>u. ''public/music/'' @ drop 7 u) ?stale)"
      by (simp add: distinct_map)
    moreover have "map path (map ?del ?stale) = map (\<lambda>u. ''public/music/'' @ drop 7 u) ?stale"
      by simp
    ultimately have 2: "distinct (map path (filter (\<lambda>it. sha it = None) entries))"
      unfolding eq by (simp only:)
    have 3: "path it \<noteq> ''public/music/'' @ drop 7 u"
      if u: "u \<in> set previousUrls" "startsWith u ''/music/''" "u \<in> url ` set ?updated"
        and it: "it \<in> set entries" "sha it = None" for u it
    proof
      assume p: "path it = ''public/music/'' @ drop 7 u"
      from it have "it \<in> set (filter (\<lambda>it. sha it = None) entries)" by simp
      then have "it \<in> ?del ` set ?stale" unfolding eq by simp
      then obtain v where v: "v \<in> set ?stale" "it = ?del v" by (rule imageE)
      with p have d: "drop 7 v = drop 7 u" by simp
      from owned v(1) have "startsWith v ''/music/''" by blast
      from this u(2) d have "v = u" by (rule drop7_inj)
      with v(1) u(3) show False by simp
    qed
    from 1 2 3 show ?thesis by blast
  qed
qed

theorem stale_owned_urls_deleted_witness:
  "set (filter (\<lambda>it. sha it = None) exampleEntries) =
     {\<lparr>path = ''public/music/old.mp3'', mode = ''100644'', type = ''blob'', sha = None\<rparr>}"
proof -
  let ?E = "demoEnv None (Some ''[A,X]'') exampleParse"
  let ?log3 = "[GetAuthToken, GetRef ''token'' ''owner'' ''repo'' ''heads/main'',
      CreateBlob ''token'' ''owner'' ''repo'' ''deadbeef'' ''base64'']"
  have read: "readTextFileFromRepo ?E ?log3 (readManifestCall ?E ''token'') = Inr (Some ''[A,X]'')"
    by (simp add: demo_defs)
  have nonempty: "''[A,X]'' \<noteq> []" by simp
  have parse: "JSON_parse ?E ''[A,X]'' =
      Some (JArr [JObj [(''name'', JStr ''A''), (''url'', JStr ''/music/old.mp3'')],
                  JObj [(''name'', JStr ''X''), (''url'', JStr ''https://x.org/music/x.mp3'')]])"
    by (simp add: demoEnv_def exampleParse_def)
  have urls: "map musicUrl
       [JObj [(''name'', JStr ''A''), (''url'', JStr ''/music/old.mp3'')],
        JObj [(''name'', JStr ''X''), (''url'', JStr ''https://x.org/music/x.mp3'')]] =
      map Some [''/music/old.mp3'', ''https://x.org/music/x.mp3'']"
    by simp
  have "{u \<in> set [''/music/old.mp3'', ''https://x.org/music/x.mp3''].
          startsWith u ''/music/'' \<and> u \<notin> url ` set (updatedMusicList exampleLocals)} =
        set (filter (\<lambda>u. startsWith u ''/music/'' \<and> u \<notin> url ` set (updatedMusicList exampleLocals))
          [''/music/old.mp3'', ''https://x.org/music/x.mp3''])"
    by (simp only: set_filter)
  also have "filter (\<lambda>u. startsWith u ''/music/'' \<and> u \<notin> url ` set (updatedMusicList exampleLocals))
          [''/music/old.mp3'', ''https://x.org/music/x.mp3''] = [''/music/old.mp3'']"
    by (simp add: startsWith_def exampleLocals_def)
  finally have stale: "{u \<in> set [''/music/old.mp3'', ''https://x.org/music/x.mp3''].
          startsWith u ''/music/'' \<and> u \<notin> url ` set (updatedMusicList exampleLocals)} =
        set [''/music/old.mp3'']" .
  from stale_owned_urls_deleted
    [OF example_run example_tree example_prepared read nonempty parse urls, THEN conjunct1]
  show ?thesis unfolding stale by simp
qed

text \<open>
  C5. Every entry with a null sha of a tree-creation call of a publish is the entry
  \<open>public/music/<filename>\<close> of a URL \<open>/music/<filename>\<close> that a track of the previous
  manifest carries and no track of the new list carries. An entry with a null sha thus
  never stems from a URL outside \<open>/music/\<close>, whatever the new list holds.
\<close>

theorem deletes_stem_from_owned_urls:
  assumes run: "pushMusic E params = (log, res)"
    and tree: "CreateTree t ow rp entries base \<in> set log"
    and entry: "it \<in> set entries"
    and null: "sha it = None"
  shows "\<exists>token latestCommitSha log3 st ptext j musics u.
           prepared E params token latestCommitSha log3 st \<and>
           readTextFileFromRepo E log3 (readManifestCall E token) = Inr (Some ptext) \<and>
           JSON_parse E ptext = Some j \<and> iterate j = Some musics \<and>
           (\<exists>music \<in> set musics. musicUrl music = Some u) \<and>
           startsWith u ''/music/'' \<and> u \<notin> url ` set (updatedMusicList st) \<and>
           it = \<lparr>path = ''public/music/'' @ drop 7 u, mode = ''100644'', type = ''blob'',
                 sha = None\<rparr>"
  using run tree
proof (cases rule: pushMusic_tree_call)
  case (tree_call token latestCommitSha log3 st prev blobSha)
  from run tree tree_call(1,2)
  have "filter (\<lambda>it. sha it = None) entries = staleItems E prev (updatedMusicList st)"
    by (rule tree_call_deletes)
  moreover from entry null have "it \<in> set (filter (\<lambda>it. sha it = None) entries)" by simp
  ultimately have "it \<in> set (staleItems E prev (updatedMusicList st))" by simp
  from staleItems_sound [OF this] obtain ptext j musics u where
    s: "prev = Some ptext" "JSON_parse E ptext = Some j" "iterate j = Some musics"
       "\<exists>music \<in> set musics. musicUrl music = Some u"
       "startsWith u ''/music/''" "u \<notin> url ` set (updatedMusicList st)"
       "it = \<lparr>path = ''public/music/'' @ drop 7 u, mode = ''100644'', type = ''blob'',
                 sha = None\<rparr>"
    by (elim exE conjE) (rule that)
  from tree_call(2) s(1) have read:
    "readTextFileFromRepo E log3 (readManifestCall E token) = Inr (Some ptext)" by simp
  from tree_call(1) read s(2-7) show ?thesis
    by (rule_tac x = token in exI, rule_tac x = latestCommitSha in exI, rule_tac x = log3 in exI,
        rule_tac x = st in exI, rule_tac x = ptext in exI, rule_tac x = j in exI,
        rule_tac x = musics in exI, rule_tac x = u in exI) (intro conjI)
qed

theorem deletes_stem_from_owned_urls_witness:
  "\<exists>token latestCommitSha log3 st ptext j musics u.
     prepared (demoEnv None (Some ''[A,X]'') exampleParse) exampleParams token latestCommitSha log3 st \<and>
     readTextFileFromRepo (demoEnv None (Some ''[A,X]'') exampleParse) log3
       (readManifestCall (demoEnv None (Some ''[A,X]'') exampleParse) token) = Inr (Some ptext) \<and>
     JSON_parse (demoEnv None (Some ''[A,X]'') exampleParse) ptext = Some j \<and>
     iterate j = Some musics \<and>
     (\<exists>music \<in> set musics. musicUrl music = Some u) \<and>
     startsWith u ''/music/'' \<and> u \<notin> url ` set (updatedMusicList st) \<and>
     \<lparr>path = ''public/music/old.mp3'', mode = ''100644'', type = ''blob'', sha = None\<rparr> =
       \<lparr>path = ''public/music/'' @ drop 7 u, mode = ''100644'', type = ''blob'', sha = None\<rparr>"
proof -
  have entry: "\<lparr>path = ''public/music/old.mp3'', mode = ''100644'', type = ''blob'', sha = None\<rparr>
      \<in> set exampleEntries"
    by (simp add: exampleEntries_def)
  have null: "sha \<lparr>path = ''public/music/old.mp3'', mode = ''100644'', type = ''blob'',
      sha = None\<rparr> = None"
    by simp
  show ?thesis
    by (rule deletes_stem_from_owned_urls [OF example_run example_tree entry null])
qed

end
